theory Spec2Isabelle
  imports Main "HOL-Library.AList"
begin

section \<open>Embedding of the radio recorder (00-live.py)\<close>

text \<open>
  The program records network radio streams in overlapping chunks inside a daily
  recording window and reports which stations are online. The embedding follows the
  source function by function. The module constants are the fields of a \<open>config\<close>
  record, the wall clock, the two directories, the status dictionary, the standard output
  and the started recorder threads are the fields of a \<open>world\<close> record, and the
  external ffmpeg process and the faults of \<open>shutil.move\<close> are the fields of an
  \<open>env\<close> record. The reader of the station file, \<open>load_stations\<close>, takes no part in the
  properties below; its result, the list of stations, is an argument where it is needed.
\<close>

subsection \<open>Decimal formatting\<close>

definition digit_char :: "nat \<Rightarrow> char" where
  "digit_char d = ''0123456789'' ! d"

text \<open>\<open>str(n)\<close> for a non-negative Python int.\<close>

fun str_nat :: "nat \<Rightarrow> string" where
  "str_nat n = (if n < 10 then [digit_char n] else str_nat (n div 10) @ [digit_char (n mod 10)])"

declare str_nat.simps [simp del]

text \<open>\<open>str(i)\<close> for a Python int, and the \<open>%d\<close> conversion.\<close>

definition str_int :: "int \<Rightarrow> string" where
  "str_int i = (if i < 0 then CHR ''-'' # str_nat (nat (- i)) else str_nat (nat i))"

text \<open>Zero padding to a minimal width: \<open>%02d\<close>, and \<open>%H\<close>, \<open>%m\<close>, ... of strftime.\<close>

definition zero_pad :: "nat \<Rightarrow> nat \<Rightarrow> string" where
  "zero_pad w n = replicate (w - length (str_nat n)) CHR ''0'' @ str_nat n"

subsection \<open>Errors\<close>

datatype error = ValueError string | OverflowError string | OSError string

subsection \<open>datetime and timedelta of the standard library\<close>

text \<open>
  A \<open>datetime\<close> in the configured timezone (Asia/Manila, a fixed offset of eight hours),
  by its fields. Arithmetic on two datetimes of one timezone is arithmetic on the fields,
  as the standard library does it: through the proleptic Gregorian ordinal of the date.
\<close>

record datetime =
  year :: nat
  month :: nat
  day :: nat
  hour :: nat
  minute :: nat
  second :: nat
  microsecond :: nat

definition is_leap :: "nat \<Rightarrow> bool" where
  "is_leap y = (y mod 4 = 0 \<and> (y mod 100 \<noteq> 0 \<or> y mod 400 = 0))"

definition days_in_month :: "nat \<Rightarrow> nat \<Rightarrow> nat" where
  "days_in_month y m =
     (if m = 2 then (if is_leap y then 29 else 28)
      else if m = 4 \<or> m = 6 \<or> m = 9 \<or> m = 11 then 30 else 31)"

definition days_before_year :: "nat \<Rightarrow> int" where
  "days_before_year y =
     (let p = int y - 1 in p * 365 + p div 4 - p div 100 + p div 400)"

definition days_before_month :: "nat \<Rightarrow> nat \<Rightarrow> int" where
  "days_before_month y m =
     int ([0, 0, 31, 59, 90, 120, 151, 181, 212, 243, 273, 304, 334] ! m)
       + (if m > 2 \<and> is_leap y then 1 else 0)"

definition toordinal :: "datetime \<Rightarrow> int" where
  "toordinal d = days_before_year (year d) + days_before_month (year d) (month d) + int (day d)"

text \<open>The invariant of every datetime object (MINYEAR = 1, MAXYEAR = 9999).\<close>

definition valid_datetime :: "datetime \<Rightarrow> bool" where
  "valid_datetime d =
     (1 \<le> year d \<and> year d \<le> 9999 \<and> 1 \<le> month d \<and> month d \<le> 12
      \<and> 1 \<le> day d \<and> day d \<le> days_in_month (year d) (month d)
      \<and> hour d < 24 \<and> minute d < 60 \<and> second d < 60 \<and> microsecond d < 1000000)"

text \<open>The day after a date: the date whose ordinal is one more.\<close>

definition next_day :: "datetime \<Rightarrow> datetime" where
  "next_day d =
     (if day d < days_in_month (year d) (month d) then d\<lparr>day := day d + 1\<rparr>
      else if month d < 12 then d\<lparr>month := month d + 1, day := 1\<rparr>
      else d\<lparr>year := year d + 1, month := 1, day := 1\<rparr>)"

text \<open>\<open>d + timedelta(days=1)\<close>, which raises OverflowError past the last day of year 9999.\<close>

definition plus_one_day :: "datetime \<Rightarrow> error + datetime" where
  "plus_one_day d =
     (if year d = 9999 \<and> month d = 12 \<and> day d = 31
      then Inl (OverflowError ''date value out of range'')
      else Inr (next_day d))"

text \<open>\<open>d.replace(hour=h, minute=0, second=0, microsecond=0)\<close>, which raises ValueError
  unless \<open>h\<close> is in \<open>0..23\<close>.\<close>

definition replace_hour :: "datetime \<Rightarrow> int \<Rightarrow> error + datetime" where
  "replace_hour d h =
     (if 0 \<le> h \<and> h \<le> 23
      then Inr (d\<lparr>hour := nat h, minute := 0, second := 0, microsecond := 0\<rparr>)
      else Inl (ValueError ''hour must be in 0..23''))"

text \<open>The time of day in microseconds, and the microseconds since the start of ordinal 0.\<close>

definition time_of_day :: "datetime \<Rightarrow> nat" where
  "time_of_day d = ((hour d * 60 + minute d) * 60 + second d) * 1000000 + microsecond d"

definition timestamp :: "datetime \<Rightarrow> int" where
  "timestamp d = toordinal d * 86400000000 + int (time_of_day d)"

text \<open>\<open>(a - b)\<close> as a timedelta, in microseconds: days, seconds and microseconds are
  subtracted separately and summed.\<close>

definition datetime_sub :: "datetime \<Rightarrow> datetime \<Rightarrow> int" where
  "datetime_sub a b =
     (toordinal a - toordinal b) * 86400000000
       + (int ((hour a * 60 + minute a) * 60 + second a)
            - int ((hour b * 60 + minute b) * 60 + second b)) * 1000000
       + (int (microsecond a) - int (microsecond b))"

text \<open>\<open>int(td.total_seconds())\<close> of a timedelta of \<open>us\<close> microseconds: truncation
  towards zero.\<close>

definition int_total_seconds :: "int \<Rightarrow> int" where
  "int_total_seconds us = (if 0 \<le> us then us div 1000000 else - ((- us) div 1000000))"

text \<open>\<open>str(timedelta(seconds=s))\<close> for an int \<open>s\<close>: the constructor normalises to days and
  \<open>0 \<le> seconds < 86400\<close>.\<close>

definition str_timedelta :: "int \<Rightarrow> string" where
  "str_timedelta s =
     (let days = s div 86400; secs = nat (s mod 86400);
          mm = secs div 60; ss = secs mod 60; hh = mm div 60; mm' = mm mod 60;
          t = str_nat hh @ '':'' @ zero_pad 2 mm' @ '':'' @ zero_pad 2 ss
      in if days \<noteq> 0
         then str_int days @ '' day'' @ (if \<bar>days\<bar> \<noteq> 1 then ''s'' else '''') @ '', '' @ t
         else t)"

text \<open>The clock \<open>n\<close> microseconds after \<open>d\<close>.\<close>

definition advance :: "datetime \<Rightarrow> nat \<Rightarrow> datetime" where
  "advance d n =
     (let t = time_of_day d + n; r = t mod 86400000000
      in ((next_day ^^ (t div 86400000000)) d)
           \<lparr>hour := r div 3600000000, minute := r div 60000000 mod 60,
            second := r div 1000000 mod 60, microsecond := r mod 1000000\<rparr>)"

subsection \<open>Configuration\<close>

record config =
  RECORD_DURATION :: int
  OVERLAP_START :: int
  START_HOUR :: int
  END_HOUR :: int

definition configured :: config where
  "configured = \<lparr>RECORD_DURATION = 15 * 60, OVERLAP_START = 14 * 60, START_HOUR = 5, END_HOUR = 0\<rparr>"

definition LIVE_DIR :: string where
  "LIVE_DIR = ''00-live''"

definition REC_DIR :: string where
  "REC_DIR = ''01-recordings''"

subsection \<open>The recording window\<close>

definition within_recording_window :: "config \<Rightarrow> datetime \<Rightarrow> bool" where
  "within_recording_window cfg now =
     (let h = int (hour now)
      in h \<ge> START_HOUR cfg \<and> (if END_HOUR cfg = 0 then h < 24 else h < END_HOUR cfg))"

text \<open>The target of the wait in \<open>wait_until_start\<close>: the two branches that compute
  \<open>next_start\<close>.\<close>

definition next_start :: "config \<Rightarrow> datetime \<Rightarrow> error + datetime" where
  "next_start cfg now =
     (if int (hour now) < START_HOUR cfg then replace_hour now (START_HOUR cfg)
      else (case plus_one_day now of
              Inl e \<Rightarrow> Inl e
            | Inr d \<Rightarrow> replace_hour d (START_HOUR cfg)))"

subsection \<open>The world the program runs in\<close>

text \<open>
  A started recorder thread: the arguments \<open>record_station\<close> passes to
  \<open>record_chunk_ffmpeg\<close>, and the clock at the start. The supervisor never joins it.
\<close>

record thread =
  arg_station_name :: string
  arg_station_url :: string
  arg_filename :: string
  arg_duration :: int
  started :: datetime

text \<open>
  The file system maps a path to the bytes of the regular file there. The status
  dictionary keeps the insertion order of its keys, as a Python dict does, so it is an
  association list; \<open>AList.update\<close> overwrites the value of a present key in place and
  appends an absent one. The standard output is the list of the printed lines.
\<close>

record world =
  clock :: datetime
  files :: "string \<rightharpoonup> string"
  station_status :: "(string \<times> bool) list"
  stdout :: "string list"
  threads :: "thread list"

text \<open>
  What the program does not decide: the effect of the ffmpeg process on the file system
  (\<open>Inl\<close> when \<open>subprocess.run\<close> itself raises, for instance when there is no ffmpeg
  executable), and whether a move fails (then the exception's message and the file system
  the failed move leaves behind).
\<close>

record env =
  subprocess_run :: "string list \<Rightarrow> (string \<rightharpoonup> string) \<Rightarrow> error + (string \<rightharpoonup> string)"
  move_fault :: "string \<Rightarrow> string \<Rightarrow> (string \<rightharpoonup> string) \<Rightarrow> (string \<times> (string \<rightharpoonup> string)) option"

definition print :: "string \<Rightarrow> world \<Rightarrow> world" where
  "print line w = w\<lparr>stdout := stdout w @ [line]\<rparr>"

text \<open>\<open>time.sleep\<close> of a duration in microseconds, on an ideal clock: the sleep ends exactly
  when the duration has passed. A negative duration raises ValueError.\<close>

definition time_sleep :: "int \<Rightarrow> world \<Rightarrow> error + world" where
  "time_sleep us w =
     (if us < 0 then Inl (ValueError ''sleep length must be non-negative'')
      else Inr (w\<lparr>clock := advance (clock w) (nat us)\<rparr>))"

text \<open>\<open>Path / name\<close> and its \<open>str\<close>, for a relative file name.\<close>

definition path_join :: "string \<Rightarrow> string \<Rightarrow> string" where
  "path_join dir name = dir @ ''/'' @ name"

definition path_exists :: "(string \<rightharpoonup> string) \<Rightarrow> string \<Rightarrow> bool" where
  "path_exists fs p = (fs p \<noteq> None)"

text \<open>\<open>p.exists() and p.stat().st_size > 0\<close>: the size is read only of a file that exists.\<close>

definition exists_nonempty :: "(string \<rightharpoonup> string) \<Rightarrow> string \<Rightarrow> bool" where
  "exists_nonempty fs p = (case fs p of None \<Rightarrow> False | Some bytes \<Rightarrow> 0 < length bytes)"

text \<open>\<open>os.remove\<close> of a regular file.\<close>

definition os_remove :: "string \<Rightarrow> world \<Rightarrow> world" where
  "os_remove p w = w\<lparr>files := (files w)(p := None)\<rparr>"

text \<open>\<open>shutil.move\<close>: the new file system, and the message of the exception if it raised.\<close>

definition shutil_move :: "env \<Rightarrow> string \<Rightarrow> string \<Rightarrow> (string \<rightharpoonup> string) \<Rightarrow> (string \<rightharpoonup> string) \<times> string option" where
  "shutil_move E src dst fs =
     (case move_fault E src dst fs of
        Some (msg, fs') \<Rightarrow> (fs', Some msg)
      | None \<Rightarrow> (fs(dst := fs src, src := None), None))"

subsection \<open>wait_until_start\<close>

text \<open>
  The loop of \<open>wait_until_start\<close>. It returns \<open>None\<close> when the loop never ends,
  \<open>Some (Inl e)\<close> when it raises and \<open>Some (Inr w)\<close> when it returns in the world \<open>w\<close>.
\<close>

partial_function (option) wait_until_start :: "config \<Rightarrow> world \<Rightarrow> (error + world) option" where
  "wait_until_start cfg w =
     (let now = clock w in
      if within_recording_window cfg now then Some (Inr w)
      else (case next_start cfg now of
              Inl e \<Rightarrow> Some (Inl e)
            | Inr target \<Rightarrow>
                (let wait_us = datetime_sub target now;
                     wait_str = str_timedelta (int_total_seconds wait_us);
                     w1 = print (''Outside recording window. Waiting '' @ wait_str @ '' until ''
                                   @ str_int (START_HOUR cfg) @ '':00.'') w
                 in (case time_sleep wait_us w1 of
                       Inl e \<Rightarrow> Some (Inl e)
                     | Inr w2 \<Rightarrow> wait_until_start cfg w2))))"

subsection \<open>generate_filename\<close>

text \<open>The characters of the raw string \<open><>:"/\|?*\<close>. They are ASCII, so replacing them
  byte by byte in a UTF-8 name is replacing them character by character.\<close>

definition unsafe_chars :: "char list" where
  "unsafe_chars = [CHR ''<'', CHR ''>'', CHR '':'', CHR 0x22, CHR ''/'', CHR 0x5C, CHR ''|'', CHR ''?'', CHR ''*'']"

definition safe_name :: "string \<Rightarrow> string" where
  "safe_name station_name = map (\<lambda>c. if c \<notin> set unsafe_chars then c else CHR ''_'') station_name"

text \<open>\<open>now.strftime("%Y-%m-%d")\<close> and \<open>now.strftime("%H-%M-%S")\<close>. The year is written
  with four digits, as it is for every year from 1000 on.\<close>

definition date_str :: "datetime \<Rightarrow> string" where
  "date_str now = zero_pad 4 (year now) @ ''-'' @ zero_pad 2 (month now) @ ''-'' @ zero_pad 2 (day now)"

definition time_str :: "datetime \<Rightarrow> string" where
  "time_str now = zero_pad 2 (hour now) @ ''-'' @ zero_pad 2 (minute now) @ ''-'' @ zero_pad 2 (second now)"

text \<open>The function reads the clock itself; here the reading is its second argument.\<close>

definition generate_filename :: "string \<Rightarrow> datetime \<Rightarrow> string" where
  "generate_filename station_name now =
     ''['' @ date_str now @ '']-['' @ time_str now @ '']-'' @ safe_name station_name @ ''.mp3''"

subsection \<open>The status board and record_chunk_ffmpeg\<close>

text \<open>The assignment \<open>station_status[station_name] = is_online\<close>, done under the lock and
  therefore as one step.\<close>

definition update_station_status :: "string \<Rightarrow> bool \<Rightarrow> world \<Rightarrow> world" where
  "update_station_status station_name is_online w =
     w\<lparr>station_status := AList.update station_name is_online (station_status w)\<rparr>"

definition ffmpeg_command :: "string \<Rightarrow> int \<Rightarrow> string \<Rightarrow> string list" where
  "ffmpeg_command station_url duration live_path =
     [''ffmpeg'', ''-y'', ''-reconnect'', ''1'', ''-reconnect_streamed'', ''1'',
      ''-reconnect_delay_max'', ''10'', ''-i'', station_url, ''-t'', str_int duration,
      ''-acodec'', ''libmp3lame'', ''-f'', ''mp3'', live_path]"

definition record_chunk_ffmpeg :: "env \<Rightarrow> string \<Rightarrow> string \<Rightarrow> string \<Rightarrow> int \<Rightarrow> world \<Rightarrow> error + world" where
  "record_chunk_ffmpeg E station_name station_url filename duration w =
     (let live_path = path_join LIVE_DIR filename;
          rec_path = path_join REC_DIR filename
      in case subprocess_run E (ffmpeg_command station_url duration live_path) (files w) of
           Inl e \<Rightarrow> Inl e
         | Inr fs \<Rightarrow>
             (let w1 = w\<lparr>files := fs\<rparr> in
              if exists_nonempty (files w1) live_path then
                (let w2 = update_station_status station_name True w1 in
                 case shutil_move E live_path rec_path (files w2) of
                   (fs', None) \<Rightarrow> Inr (w2\<lparr>files := fs'\<rparr>)
                 | (fs', Some e) \<Rightarrow>
                     Inr (print (''['' @ station_name @ '']: Error moving file: '' @ e)
                            (w2\<lparr>files := fs'\<rparr>)))
              else
                (let w2 = update_station_status station_name False w1 in
                 if path_exists (files w2) live_path then Inr (os_remove live_path w2)
                 else Inr w2)))"

subsection \<open>record_station\<close>

definition thread_start :: "thread \<Rightarrow> world \<Rightarrow> world" where
  "thread_start t w = w\<lparr>threads := threads w @ [t]\<rparr>"

text \<open>One pass through the body of the \<open>while True\<close> loop of \<open>record_station\<close>.\<close>

definition record_station_body :: "config \<Rightarrow> string \<Rightarrow> string \<Rightarrow> world \<Rightarrow> (error + world) option" where
  "record_station_body cfg station_name station_url w =
     (case (if \<not> within_recording_window cfg (clock w) then wait_until_start cfg w
            else Some (Inr w)) of
        None \<Rightarrow> None
      | Some (Inl e) \<Rightarrow> Some (Inl e)
      | Some (Inr w1) \<Rightarrow>
          (let filename = generate_filename station_name (clock w1);
               w2 = thread_start \<lparr>arg_station_name = station_name, arg_station_url = station_url,
                                  arg_filename = filename, arg_duration = RECORD_DURATION cfg,
                                  started = clock w1\<rparr> w1
           in Some (time_sleep (OVERLAP_START cfg * 1000000) w2)))"

text \<open>The loop never ends by itself; \<open>n\<close> passes of it.\<close>

fun record_station_loop :: "nat \<Rightarrow> config \<Rightarrow> string \<Rightarrow> string \<Rightarrow> world \<Rightarrow> (error + world) option" where
  "record_station_loop 0 cfg station_name station_url w = Some (Inr w)"
| "record_station_loop (Suc n) cfg station_name station_url w =
     (case record_station_body cfg station_name station_url w of
        None \<Rightarrow> None
      | Some (Inl e) \<Rightarrow> Some (Inl e)
      | Some (Inr w') \<Rightarrow> record_station_loop n cfg station_name station_url w')"

definition record_station :: "nat \<Rightarrow> config \<Rightarrow> string \<Rightarrow> string \<Rightarrow> world \<Rightarrow> (error + world) option" where
  "record_station n cfg station_name station_url w =
     record_station_loop n cfg station_name station_url (update_station_status station_name False w)"

subsection \<open>print_status_report and the start of main\<close>

definition print_status_report :: "world \<Rightarrow> world" where
  "print_status_report w =
     (let total = length (station_status w);
          online_names = [name. (name, online) \<leftarrow> station_status w, online];
          offline_names = [name. (name, online) \<leftarrow> station_status w, \<not> online];
          online_count = length online_names;
          offline_count = length offline_names
      in w\<lparr>stdout := stdout w
            @ [''==='', ''Online Radios: '' @ str_nat online_count @ ''/'' @ str_nat total]
            @ online_names
            @ ['''', ''Offline Radios: '' @ str_nat offline_count @ ''/'' @ str_nat total]
            @ offline_names\<rparr>)"

text \<open>The loop of \<open>main\<close> that enters every station as offline.\<close>

fun main_init :: "(string \<times> string) list \<Rightarrow> world \<Rightarrow> world" where
  "main_init [] w = w"
| "main_init ((station_name, station_url) # stations) w =
     main_init stations (w\<lparr>station_status := AList.update station_name False (station_status w)\<rparr>)"

text \<open>
  The worlds of a running process. The module starts with the empty dictionary and
  \<open>main\<close> enters the stations before it starts any thread. After that the dictionary is
  written by \<open>update_station_status\<close> only, which \<open>record_station\<close> and
  \<open>record_chunk_ffmpeg\<close> call with the name of a station of the list; every write holds
  the lock, so a run of the threads is a sequence of such writes, in any order. Every
  other step of a thread leaves the dictionary as it is.
\<close>

inductive running :: "(string \<times> string) list \<Rightarrow> world \<Rightarrow> bool" for stations where
  started: "station_status w = [] \<Longrightarrow> running stations (main_init stations w)"
| status_write: "running stations w \<Longrightarrow> (station_name, station_url) \<in> set stations
     \<Longrightarrow> running stations (update_station_status station_name is_online w)"
| other_step: "running stations w \<Longrightarrow> station_status w' = station_status w \<Longrightarrow> running stations w'"

subsection \<open>Notions used in the properties\<close>

text \<open>The part of the datetime invariant that \<open>next_day\<close> keeps at every year.\<close>

definition valid_date :: "datetime \<Rightarrow> bool" where
  "valid_date d =
     (1 \<le> year d \<and> 1 \<le> month d \<and> month d \<le> 12
      \<and> 1 \<le> day d \<and> day d \<le> days_in_month (year d) (month d))"

text \<open>The characters of a decimal numeral.\<close>

definition is_digit :: "char \<Rightarrow> bool" where
  "is_digit c = (c \<in> set ''0123456789'')"

text \<open>Reading a decimal numeral back, from the left.\<close>

definition digit_val :: "char \<Rightarrow> nat" where
  "digit_val c = of_char c - 48"

definition read_nat :: "string \<Rightarrow> nat" where
  "read_nat s = foldl (\<lambda>a c. 10 * a + digit_val c) 0 s"

text \<open>
  A chunk is active from the start of its thread for its duration; the bounds are
  timestamps in microseconds. The overlap of two chunks is the length of the common part of
  their active intervals.
\<close>

definition active_from :: "thread \<Rightarrow> int" where
  "active_from t = timestamp (started t)"

definition active_until :: "thread \<Rightarrow> int" where
  "active_until t = timestamp (started t) + arg_duration t * 1000000"

definition overlap_us :: "thread \<Rightarrow> thread \<Rightarrow> int" where
  "overlap_us t1 t2 =
     max 0 (min (active_until t1) (active_until t2) - max (active_from t1) (active_from t2))"

text \<open>The line that \<open>wait_until_start\<close> prints before it sleeps.\<close>

definition wait_message :: "config \<Rightarrow> datetime \<Rightarrow> datetime \<Rightarrow> string" where
  "wait_message cfg target now =
     ''Outside recording window. Waiting ''
       @ str_timedelta (int_total_seconds (datetime_sub target now)) @ '' until ''
       @ str_int (START_HOUR cfg) @ '':00.''"

subsection \<open>Example configurations, clocks and worlds\<close>

definition example_world :: world where
  "example_world =
     \<lparr>clock = \<lparr>year = 2024, month = 3, day = 9, hour = 5, minute = 0, second = 0, microsecond = 0\<rparr>,
      files = Map.empty, station_status = [], stdout = [], threads = []\<rparr>"

definition example_env :: env where
  "example_env =
     \<lparr>subprocess_run = (\<lambda>cmd fs. Inr (fs(last cmd \<mapsto> ''mp3 data''))),
      move_fault = (\<lambda>src dst fs. None)\<rparr>"

definition offline_env :: env where
  "offline_env =
     \<lparr>subprocess_run = (\<lambda>cmd fs. Inr (fs(last cmd \<mapsto> []))),
      move_fault = (\<lambda>src dst fs. None)\<rparr>"

definition failing_move_env :: env where
  "failing_move_env =
     \<lparr>subprocess_run = (\<lambda>cmd fs. Inr (fs(last cmd \<mapsto> ''mp3 data''))),
      move_fault = (\<lambda>src dst fs. Some (''[Errno 13] Permission denied'', fs))\<rparr>"

definition before_five :: datetime where
  "before_five = \<lparr>year = 2024, month = 3, day = 9, hour = 4, minute = 59, second = 59, microsecond = 0\<rparr>"

definition late_evening :: datetime where
  "late_evening = \<lparr>year = 2024, month = 2, day = 28, hour = 23, minute = 30, second = 0, microsecond = 0\<rparr>"

definition last_second :: datetime where
  "last_second = \<lparr>year = 2024, month = 12, day = 31, hour = 23, minute = 59, second = 59, microsecond = 500000\<rparr>"

definition first_second :: datetime where
  "first_second = \<lparr>year = 2025, month = 1, day = 1, hour = 0, minute = 0, second = 0, microsecond = 500000\<rparr>"

definition evening_world :: world where
  "evening_world = example_world
     \<lparr>clock := \<lparr>year = 2024, month = 3, day = 9, hour = 22, minute = 0, second = 0, microsecond = 0\<rparr>\<rparr>"

definition closing_world :: world where
  "closing_world = example_world
     \<lparr>clock := \<lparr>year = 2024, month = 3, day = 9, hour = 23, minute = 50, second = 0, microsecond = 0\<rparr>\<rparr>"

section \<open>Properties\<close>

subsection \<open>The recording window\<close>

text \<open>
  C2. For every timestamp \<open>now\<close>, \<open>within_recording_window\<close> holds exactly when the hour of
  \<open>now\<close> lies in \<open>[START_HOUR, 24)\<close> if \<open>END_HOUR\<close> is 0, and in \<open>[START_HOUR, END_HOUR)\<close>
  otherwise. It depends on the hour of \<open>now\<close> and on nothing else: two timestamps with the
  same hour get the same answer.
\<close>

theorem window_correct:
  "within_recording_window cfg now =
     (if END_HOUR cfg = 0 then int (hour now) \<in> {START_HOUR cfg ..< 24}
      else int (hour now) \<in> {START_HOUR cfg ..< END_HOUR cfg})
   \<and> (\<forall>now'. hour now' = hour now \<longrightarrow>
          within_recording_window cfg now' = within_recording_window cfg now)"
  by (simp add: within_recording_window_def Let_def)

theorem window_correct_witness:
  "within_recording_window configured
     \<lparr>year = 2024, month = 3, day = 9, hour = 5, minute = 0, second = 0, microsecond = 0\<rparr>
   \<and> \<not> within_recording_window configured
     \<lparr>year = 2024, month = 3, day = 9, hour = 4, minute = 59, second = 59, microsecond = 999999\<rparr>
   \<and> within_recording_window configured
     \<lparr>year = 2031, month = 1, day = 1, hour = 5, minute = 30, second = 0, microsecond = 7\<rparr>"
  using window_correct [of configured
          "\<lparr>year = 2024, month = 3, day = 9, hour = 5, minute = 0, second = 0, microsecond = 0\<rparr>"]
        window_correct [of configured
          "\<lparr>year = 2024, month = 3, day = 9, hour = 4, minute = 59, second = 59, microsecond = 999999\<rparr>"]
  by (simp add: configured_def)

text \<open>
  C10. In the degenerate configuration where \<open>END_HOUR\<close> equals \<open>START_HOUR\<close> and is not 0,
  \<open>within_recording_window\<close> is false at every hour: the window is always closed.
\<close>

theorem degenerate_window_closed:
  "END_HOUR cfg = START_HOUR cfg \<Longrightarrow> END_HOUR cfg \<noteq> 0 \<Longrightarrow> \<not> within_recording_window cfg now"
  by (simp add: within_recording_window_def Let_def)

theorem degenerate_window_closed_witness:
  "END_HOUR (configured\<lparr>END_HOUR := 5\<rparr>) = START_HOUR (configured\<lparr>END_HOUR := 5\<rparr>)
   \<and> END_HOUR (configured\<lparr>END_HOUR := 5\<rparr>) \<noteq> 0
   \<and> \<not> within_recording_window (configured\<lparr>END_HOUR := 5\<rparr>)
          \<lparr>year = 2024, month = 3, day = 9, hour = 5, minute = 0, second = 0, microsecond = 0\<rparr>"
  using degenerate_window_closed [of "configured\<lparr>END_HOUR := 5\<rparr>"
          "\<lparr>year = 2024, month = 3, day = 9, hour = 5, minute = 0, second = 0, microsecond = 0\<rparr>"]
  by (simp add: configured_def)

subsection \<open>The status board\<close>

lemma map_of_update_status:
  "map_of (station_status (update_station_status a v w)) b
     = (if b = a then Some v else map_of (station_status w) b)"
  by (simp add: update_station_status_def update_conv')

lemma keys_update_status:
  "fst ` set (station_status (update_station_status a v w)) = insert a (fst ` set (station_status w))"
  by (simp add: update_station_status_def AList.dom_update)

lemma distinct_update_status:
  "distinct (map fst (station_status w)) \<Longrightarrow>
   distinct (map fst (station_status (update_station_status a v w)))"
  by (simp add: update_station_status_def distinct_update)

lemma main_init_keys:
  "fst ` set (station_status (main_init stations w))
     = fst ` set stations \<union> fst ` set (station_status w)"
  by (induction stations w rule: main_init.induct) (auto simp: AList.dom_update)

lemma main_init_distinct:
  "distinct (map fst (station_status w)) \<Longrightarrow>
   distinct (map fst (station_status (main_init stations w)))"
  by (induction stations w rule: main_init.induct) (auto simp: distinct_update)

lemma running_keys:
  "running stations w \<Longrightarrow> fst ` set (station_status w) = fst ` set stations"
proof (induction rule: running.induct)
  case (started w)
  then show ?case by (simp add: main_init_keys)
next
  case (status_write w station_name station_url is_online)
  then have "station_name \<in> fst ` set stations" by force
  with status_write.IH show ?case by (auto simp: keys_update_status)
next
  case (other_step w w')
  then show ?case by simp
qed

lemma running_distinct:
  "running stations w \<Longrightarrow> distinct (map fst (station_status w))"
proof (induction rule: running.induct)
  case (started w)
  then show ?case using main_init_distinct [of w stations] by simp
next
  case (status_write w station_name station_url is_online)
  then show ?case by (simp add: distinct_update_status)
next
  case (other_step w w')
  then show ?case by simp
qed

lemma running_example:
  "running [(''A'', ''http://a''), (''B'', ''http://b'')]
     (update_station_status ''B'' True
        (main_init [(''A'', ''http://a''), (''B'', ''http://b'')] example_world))"
  by (rule running.status_write [where station_url = "''http://b''"], rule running.started)
     (simp_all add: example_world_def)

text \<open>
  C9. A write of station \<open>a\<close>'s status sets the entry of \<open>a\<close> and leaves the entry of every
  other station as it was. In every world of a running process (the stations entered by
  \<open>main\<close> before any thread starts, then status writes of the threads in any order) the
  keys of the status board are exactly the names of the station list, each once.
\<close>

theorem status_isolation_and_key_set:
  "(\<forall>a v b w. map_of (station_status (update_station_status a v w)) b
       = (if b = a then Some v else map_of (station_status w) b))
   \<and> (\<forall>stations w. running stations w \<longrightarrow>
         set (map fst (station_status w)) = set (map fst stations)
         \<and> distinct (map fst (station_status w)))"
  using running_keys running_distinct by (simp add: map_of_update_status)

theorem status_isolation_and_key_set_witness:
  "station_status (update_station_status ''B'' True
       (main_init [(''A'', ''http://a''), (''B'', ''http://b'')] example_world))
     = [(''A'', False), (''B'', True)]
   \<and> set (map fst (station_status (update_station_status ''B'' True
          (main_init [(''A'', ''http://a''), (''B'', ''http://b'')] example_world)))) = {''A'', ''B''}"
  using status_isolation_and_key_set running_example
  by (simp add: example_world_def update_station_status_def)

subsection \<open>record_chunk_ffmpeg\<close>

lemma exists_nonempty_iff:
  "exists_nonempty fs p = (\<exists>bytes. fs p = Some bytes \<and> 0 < length bytes)"
  by (simp add: exists_nonempty_def split: option.splits)

lemma chunk_offline:
  assumes "subprocess_run E (ffmpeg_command station_url duration (path_join LIVE_DIR filename)) (files w) = Inr fs"
    and "\<not> exists_nonempty fs (path_join LIVE_DIR filename)"
  shows "record_chunk_ffmpeg E station_name station_url filename duration w
           = Inr (w\<lparr>files := fs(path_join LIVE_DIR filename := None),
                    station_status := AList.update station_name False (station_status w)\<rparr>)"
proof (cases "fs (path_join LIVE_DIR filename)")
  case None
  then have "fs(path_join LIVE_DIR filename := None) = fs" by (simp add: fun_upd_idem)
  with None assms show ?thesis
    by (simp add: record_chunk_ffmpeg_def Let_def update_station_status_def path_exists_def)
next
  case (Some bytes)
  with assms show ?thesis
    by (simp add: record_chunk_ffmpeg_def Let_def update_station_status_def path_exists_def
          os_remove_def)
qed

lemma chunk_online_moved:
  assumes "subprocess_run E (ffmpeg_command station_url duration (path_join LIVE_DIR filename)) (files w) = Inr fs"
    and "exists_nonempty fs (path_join LIVE_DIR filename)"
    and "move_fault E (path_join LIVE_DIR filename) (path_join REC_DIR filename) fs = None"
  shows "record_chunk_ffmpeg E station_name station_url filename duration w
           = Inr (w\<lparr>files := fs(path_join REC_DIR filename := fs (path_join LIVE_DIR filename),
                                 path_join LIVE_DIR filename := None),
                    station_status := AList.update station_name True (station_status w)\<rparr>)"
  using assms
  by (simp add: record_chunk_ffmpeg_def Let_def update_station_status_def shutil_move_def)

lemma chunk_online_move_failed:
  assumes "subprocess_run E (ffmpeg_command station_url duration (path_join LIVE_DIR filename)) (files w) = Inr fs"
    and "exists_nonempty fs (path_join LIVE_DIR filename)"
    and "move_fault E (path_join LIVE_DIR filename) (path_join REC_DIR filename) fs = Some (msg, fs')"
  shows "record_chunk_ffmpeg E station_name station_url filename duration w
           = Inr (w\<lparr>files := fs',
                    station_status := AList.update station_name True (station_status w),
                    stdout := stdout w @ [''['' @ station_name @ '']: Error moving file: '' @ msg]\<rparr>)"
  using assms
  by (simp add: record_chunk_ffmpeg_def Let_def update_station_status_def shutil_move_def print_def)

text \<open>
  C1. When the capture process has completed and left the file system \<open>fs\<close>,
  \<open>record_chunk_ffmpeg\<close> returns, and the boolean it writes into the status board under
  the station's name is true exactly when the artifact at the working path exists in
  \<open>fs\<close> with a size greater than zero. The written value is a function of \<open>fs\<close> at that
  path alone: the world before the call, with its earlier writes, does not enter.
\<close>

theorem chunk_classification:
  assumes "subprocess_run E (ffmpeg_command station_url duration (path_join LIVE_DIR filename)) (files w) = Inr fs"
  shows "\<exists>w'. record_chunk_ffmpeg E station_name station_url filename duration w = Inr w'
           \<and> station_status w'
               = AList.update station_name (exists_nonempty fs (path_join LIVE_DIR filename)) (station_status w)
           \<and> map_of (station_status w') station_name
               = Some (\<exists>bytes. fs (path_join LIVE_DIR filename) = Some bytes \<and> 0 < length bytes)"
proof (cases "exists_nonempty fs (path_join LIVE_DIR filename)")
  case True
  note on = this
  show ?thesis
  proof (cases "move_fault E (path_join LIVE_DIR filename) (path_join REC_DIR filename) fs")
    case None
    show ?thesis
      using on on [unfolded exists_nonempty_iff]
      by (simp add: chunk_online_moved [OF assms on None] update_conv')
  next
    case (Some a)
    obtain msg fs' where "a = (msg, fs')" by (cases a)
    with Some have mf: "move_fault E (path_join LIVE_DIR filename) (path_join REC_DIR filename) fs = Some (msg, fs')"
      by simp
    show ?thesis
      using on on [unfolded exists_nonempty_iff]
      by (simp add: chunk_online_move_failed [OF assms on mf] update_conv')
  qed
next
  case False
  show ?thesis
    using False False [unfolded exists_nonempty_iff]
    by (simp add: chunk_offline [OF assms False] update_conv')
qed

lemma example_capture:
  "subprocess_run example_env (ffmpeg_command ''http://a'' 900 (path_join LIVE_DIR ''a.mp3'')) (files example_world)
     = Inr (Map.empty(''00-live/a.mp3'' \<mapsto> ''mp3 data''))"
  by (simp add: example_env_def ffmpeg_command_def path_join_def LIVE_DIR_def example_world_def)

theorem chunk_classification_witness:
  "\<exists>w'. record_chunk_ffmpeg example_env ''A'' ''http://a'' ''a.mp3'' 900 example_world = Inr w'
         \<and> station_status w' = [(''A'', True)]"
  using chunk_classification [OF example_capture, of "''A''"]
  by (auto simp: exists_nonempty_def path_join_def LIVE_DIR_def example_world_def)

text \<open>
  C4. When the capture leaves no artifact at the working path, or one of length zero, the
  station's entry becomes offline, and after the call there is no file at the working
  path: a zero-length artifact has been removed and nothing else has changed.
\<close>

theorem offline_detection:
  assumes "subprocess_run E (ffmpeg_command station_url duration (path_join LIVE_DIR filename)) (files w) = Inr fs"
    and "fs (path_join LIVE_DIR filename) = None \<or> fs (path_join LIVE_DIR filename) = Some []"
  shows "\<exists>w'. record_chunk_ffmpeg E station_name station_url filename duration w = Inr w'
           \<and> map_of (station_status w') station_name = Some False
           \<and> files w' (path_join LIVE_DIR filename) = None
           \<and> files w' = fs(path_join LIVE_DIR filename := None)"
proof -
  from assms(2) have "\<not> exists_nonempty fs (path_join LIVE_DIR filename)"
    by (auto simp: exists_nonempty_def)
  from chunk_offline [OF assms(1) this] show ?thesis
    by (simp add: update_conv')
qed

text \<open>
  C5. When the move of a captured artifact fails, \<open>record_chunk_ffmpeg\<close> still returns
  normally; the one status write it made stays (the station is online), the message of
  the failure is printed, and the file system is the one the failed move left: the move
  is not tried again.
\<close>

theorem move_failure_keeps_online:
  assumes "subprocess_run E (ffmpeg_command station_url duration (path_join LIVE_DIR filename)) (files w) = Inr fs"
    and "exists_nonempty fs (path_join LIVE_DIR filename)"
    and "move_fault E (path_join LIVE_DIR filename) (path_join REC_DIR filename) fs = Some (msg, fs')"
  shows "\<exists>w'. record_chunk_ffmpeg E station_name station_url filename duration w = Inr w'
           \<and> map_of (station_status w') station_name = Some True
           \<and> station_status w' = AList.update station_name True (station_status w)
           \<and> stdout w' = stdout w @ [''['' @ station_name @ '']: Error moving file: '' @ msg]
           \<and> files w' = fs'"
  by (simp add: chunk_online_move_failed [OF assms] update_conv')

lemma offline_capture:
  "subprocess_run offline_env (ffmpeg_command ''http://a'' 900 (path_join LIVE_DIR ''a.mp3'')) (files example_world)
     = Inr (Map.empty(''00-live/a.mp3'' \<mapsto> []))"
  by (simp add: offline_env_def ffmpeg_command_def path_join_def LIVE_DIR_def example_world_def)

theorem offline_detection_witness:
  "\<exists>w'. record_chunk_ffmpeg offline_env ''A'' ''http://a'' ''a.mp3'' 900 example_world = Inr w'
         \<and> map_of (station_status w') ''A'' = Some False
         \<and> files w' = Map.empty"
  using offline_detection [OF offline_capture, of "''A''"]
  by (auto simp: path_join_def LIVE_DIR_def)

lemma failing_move_capture:
  "subprocess_run failing_move_env (ffmpeg_command ''http://a'' 900 (path_join LIVE_DIR ''a.mp3'')) (files example_world)
     = Inr (Map.empty(''00-live/a.mp3'' \<mapsto> ''mp3 data''))"
  by (simp add: failing_move_env_def ffmpeg_command_def path_join_def LIVE_DIR_def example_world_def)

theorem move_failure_keeps_online_witness:
  "\<exists>w'. record_chunk_ffmpeg failing_move_env ''A'' ''http://a'' ''a.mp3'' 900 example_world = Inr w'
         \<and> station_status w' = [(''A'', True)]
         \<and> stdout w' = [''[A]: Error moving file: [Errno 13] Permission denied'']"
  using move_failure_keeps_online [OF failing_move_capture, of "''[Errno 13] Permission denied''" _ "''A''"]
  by (auto simp: exists_nonempty_def path_join_def LIVE_DIR_def REC_DIR_def failing_move_env_def example_world_def)

subsection \<open>print_status_report\<close>

lemma online_names_eq:
  "[name. (name, online) \<leftarrow> board, online] = map fst (filter snd board)"
  by (induction board) auto

lemma offline_names_eq:
  "[name. (name, online) \<leftarrow> board, \<not> online] = map fst (filter (\<lambda>p. \<not> snd p) board)"
  by (induction board) auto

lemma print_status_report_stdout:
  "stdout (print_status_report w) =
     stdout w
     @ [''==='',
        ''Online Radios: '' @ str_nat (length (map fst (filter snd (station_status w)))) @ ''/''
           @ str_nat (length (station_status w))]
     @ map fst (filter snd (station_status w))
     @ ['''',
        ''Offline Radios: '' @ str_nat (length (map fst (filter (\<lambda>p. \<not> snd p) (station_status w)))) @ ''/''
           @ str_nat (length (station_status w))]
     @ map fst (filter (\<lambda>p. \<not> snd p) (station_status w))"
  unfolding print_status_report_def Let_def online_names_eq offline_names_eq
  by simp

lemma online_keys:
  "distinct (map fst board) \<Longrightarrow>
   set (map fst (filter snd board)) = {n. map_of board n = Some True}"
  by (force simp: map_of_eq_Some_iff)

lemma offline_keys:
  "distinct (map fst board) \<Longrightarrow>
   set (map fst (filter (\<lambda>p. \<not> snd p) board)) = {n. map_of board n = Some False}"
  by (force simp: map_of_eq_Some_iff)

lemma names_partition:
  assumes "distinct (map fst board)"
  shows "distinct (map fst (filter snd board) @ map fst (filter (\<lambda>p. \<not> snd p) board))"
    and "set (map fst (filter snd board) @ map fst (filter (\<lambda>p. \<not> snd p) board)) = set (map fst board)"
    and "length (map fst (filter snd board)) + length (map fst (filter (\<lambda>p. \<not> snd p) board)) = length board"
proof -
  have "set (map fst (filter snd board)) \<inter> set (map fst (filter (\<lambda>p. \<not> snd p) board)) = {}"
    unfolding online_keys [OF assms] offline_keys [OF assms] by auto
  moreover have "distinct (map fst (filter snd board))" "distinct (map fst (filter (\<lambda>p. \<not> snd p) board))"
    using assms by (simp_all add: distinct_map_filter)
  ultimately show "distinct (map fst (filter snd board) @ map fst (filter (\<lambda>p. \<not> snd p) board))"
    by (simp only: distinct_append)
  show "set (map fst (filter snd board) @ map fst (filter (\<lambda>p. \<not> snd p) board)) = set (map fst board)"
    by auto
  show "length (map fst (filter snd board)) + length (map fst (filter (\<lambda>p. \<not> snd p) board)) = length board"
    using sum_length_filter_compl [of snd board] by simp
qed

text \<open>
  C8. For a status board (a dictionary, so its keys are distinct) the report appends to the
  standard output: the separator line, the line \<open>Online Radios: count/total\<close>, the online
  names one per line, an empty line, the line \<open>Offline Radios: count/total\<close>, and the
  offline names one per line. The two lists of names partition the keys of the board:
  together they hold every key exactly once, the first holds the keys whose entry is true
  and the second the keys whose entry is false, and the two counts add up to the total.
\<close>

theorem report_format:
  assumes "distinct (map fst (station_status w))"
  shows "\<exists>online offline.
          stdout (print_status_report w) =
            stdout w
            @ [''==='', ''Online Radios: '' @ str_nat (length online) @ ''/'' @ str_nat (length (station_status w))]
            @ online
            @ ['''', ''Offline Radios: '' @ str_nat (length offline) @ ''/'' @ str_nat (length (station_status w))]
            @ offline
          \<and> distinct (online @ offline)
          \<and> set (online @ offline) = set (map fst (station_status w))
          \<and> set online = {n. map_of (station_status w) n = Some True}
          \<and> set offline = {n. map_of (station_status w) n = Some False}
          \<and> length online + length offline = length (station_status w)"
  using print_status_report_stdout [of w] names_partition [OF assms]
    online_keys [OF assms] offline_keys [OF assms]
  by blast

theorem report_format_witness:
  "distinct (map fst (station_status
       (example_world\<lparr>station_status := [(''A'', True), (''B'', False), (''C'', True)]\<rparr>)))
   \<and> stdout (print_status_report
       (example_world\<lparr>station_status := [(''A'', True), (''B'', False), (''C'', True)]\<rparr>))
     = [''==='', ''Online Radios: 2/3'', ''A'', ''C'', '''', ''Offline Radios: 1/3'', ''B'']"
proof -
  have d: "distinct (map fst (station_status
       (example_world\<lparr>station_status := [(''A'', True), (''B'', False), (''C'', True)]\<rparr>)))"
    by simp
  from report_format [OF d] d show ?thesis
    by (simp add: print_status_report_def example_world_def str_nat.simps digit_char_def)
qed

subsection \<open>The calendar\<close>

lemma valid_datetime_date: "valid_datetime d \<Longrightarrow> valid_date d"
  by (simp add: valid_datetime_def valid_date_def)

lemma days_before_month_Suc:
  assumes "1 \<le> m" "m < 12"
  shows "days_before_month y (m + 1) = days_before_month y m + int (days_in_month y m)"
proof -
  from assms have "m = 1 \<or> m = 2 \<or> m = 3 \<or> m = 4 \<or> m = 5 \<or> m = 6 \<or> m = 7
      \<or> m = 8 \<or> m = 9 \<or> m = 10 \<or> m = 11"
    by arith
  then show ?thesis
    by (elim disjE) (simp_all add: days_before_month_def days_in_month_def)
qed

lemma int_div_succ:
  "(int (Suc p)) div int k = int p div int k + (if Suc p mod k = 0 then 1 else 0)"
proof -
  have "int (Suc p) div int k = int (Suc p div k)" by (simp only: zdiv_int)
  also have "\<dots> = int (p div k) + (if Suc p mod k = 0 then 1 else 0)"
    by (simp add: div_Suc)
  also have "int (p div k) = int p div int k" by (simp only: zdiv_int)
  finally show ?thesis .
qed

lemma mod_400_100: "(n::nat) mod 400 = 0 \<Longrightarrow> n mod 100 = 0"
  using mod_mod_cancel [of 100 400 n] by simp

lemma mod_100_4: "(n::nat) mod 100 = 0 \<Longrightarrow> n mod 4 = 0"
  using mod_mod_cancel [of 4 100 n] by simp

lemma days_before_year_Suc:
  assumes "1 \<le> y"
  shows "days_before_year (y + 1) = days_before_year y + (if is_leap y then 366 else 365)"
proof -
  from assms obtain p where y: "y = Suc p" by (cases y) auto
  have a: "int (Suc p) div 4 = int p div 4 + (if Suc p mod 4 = 0 then 1 else 0)"
    using int_div_succ [of p 4] by simp
  have b: "int (Suc p) div 100 = int p div 100 + (if Suc p mod 100 = 0 then 1 else 0)"
    using int_div_succ [of p 100] by simp
  have c: "int (Suc p) div 400 = int p div 400 + (if Suc p mod 400 = 0 then 1 else 0)"
    using int_div_succ [of p 400] by simp
  have e: "days_before_year (Suc p + 1)
      = int (Suc p) * 365 + int (Suc p) div 4 - int (Suc p) div 100 + int (Suc p) div 400"
    by (simp add: days_before_year_def Let_def)
  have f: "days_before_year (Suc p) = int p * 365 + int p div 4 - int p div 100 + int p div 400"
    by (simp add: days_before_year_def Let_def)
  have g: "int (Suc p) * 365 = int p * 365 + 365" by simp
  note m4 = mod_100_4 [of "Suc p"] and m100 = mod_400_100 [of "Suc p"]
  show ?thesis
    unfolding y e f a b c g is_leap_def
    using m4 m100
    by (cases "Suc p mod 4 = 0"; cases "Suc p mod 100 = 0"; cases "Suc p mod 400 = 0") simp_all
qed

lemma toordinal_next_day:
  assumes "valid_date d"
  shows "toordinal (next_day d) = toordinal d + 1"
proof (cases "day d < days_in_month (year d) (month d)")
  case True
  then show ?thesis by (simp add: next_day_def toordinal_def)
next
  case False
  with assms have eq: "day d = days_in_month (year d) (month d)"
    by (simp add: valid_date_def)
  show ?thesis
  proof (cases "month d < 12")
    case True
    from assms have "1 \<le> month d" by (simp add: valid_date_def)
    from days_before_month_Suc [OF this True, of "year d"] False True eq
    show ?thesis by (simp add: next_day_def toordinal_def)
  next
    case False
    with assms have m: "month d = 12" by (simp add: valid_date_def)
    with eq have d31: "day d = 31" by (simp add: days_in_month_def)
    from assms have "1 \<le> year d" by (simp add: valid_date_def)
    from days_before_year_Suc [OF this] m d31 show ?thesis
      by (simp add: next_day_def toordinal_def days_before_month_def)
  qed
qed

lemma days_in_month_pos: "1 \<le> days_in_month y m"
  by (simp add: days_in_month_def)

lemma valid_date_next_day:
  assumes "valid_date d"
  shows "valid_date (next_day d)"
proof (cases "day d < days_in_month (year d) (month d)")
  case True
  with assms show ?thesis by (simp add: next_day_def valid_date_def)
next
  case False
  show ?thesis
  proof (cases "month d < 12")
    case True
    with False assms days_in_month_pos [of "year d" "month d + 1"] show ?thesis
      by (simp add: next_day_def valid_date_def)
  next
    case False
    with \<open>\<not> day d < days_in_month (year d) (month d)\<close> assms days_in_month_pos [of "year d + 1" 1]
    show ?thesis
      by (simp add: next_day_def valid_date_def)
  qed
qed

lemma next_day_time [simp]:
  "hour (next_day d) = hour d" "minute (next_day d) = minute d"
  "second (next_day d) = second d" "microsecond (next_day d) = microsecond d"
  by (simp_all add: next_day_def)

lemma funpow_next_day_time [simp]:
  "hour ((next_day ^^ k) d) = hour d" "minute ((next_day ^^ k) d) = minute d"
  "second ((next_day ^^ k) d) = second d" "microsecond ((next_day ^^ k) d) = microsecond d"
  by (induction k) simp_all

lemma valid_date_funpow: "valid_date d \<Longrightarrow> valid_date ((next_day ^^ k) d)"
  by (induction k) (simp_all add: valid_date_next_day)

lemma toordinal_funpow:
  "valid_date d \<Longrightarrow> toordinal ((next_day ^^ k) d) = toordinal d + int k"
  by (induction k) (simp_all add: toordinal_next_day valid_date_funpow)

lemma toordinal_time_update [simp]:
  "toordinal (d\<lparr>hour := h, minute := m, second := s, microsecond := u\<rparr>) = toordinal d"
  by (simp add: toordinal_def)

lemma valid_date_time_update [simp]:
  "valid_date (d\<lparr>hour := h, minute := m, second := s, microsecond := u\<rparr>) = valid_date d"
  by (simp add: valid_date_def)

text \<open>Splitting microseconds of a day into hour, minute, second and microsecond, and back.\<close>

lemma split_time_of_day:
  fixes r :: nat
  shows "((r div 3600000000 * 60 + r div 60000000 mod 60) * 60 + r div 1000000 mod 60) * 1000000
           + r mod 1000000 = r"
proof -
  define q where "q = r div 1000000"
  have a: "r div 60000000 = q div 60"
    unfolding q_def by (simp add: div_mult2_eq [symmetric])
  have b: "r div 3600000000 = q div 60 div 60"
    unfolding q_def by (simp add: div_mult2_eq [symmetric])
  have "(q div 60 div 60 * 60 + q div 60 mod 60) * 60 + q mod 60 = q"
    by simp
  then have "((r div 3600000000 * 60 + r div 60000000 mod 60) * 60 + r div 1000000 mod 60) = q"
    unfolding a b q_def [symmetric] .
  then show ?thesis
    by (simp add: q_def)
qed

lemma join_time_of_day:
  fixes h m s u :: nat
  assumes m: "m < 60" and s: "s < 60" and u: "u < 1000000"
  defines "r \<equiv> ((h * 60 + m) * 60 + s) * 1000000 + u"
  shows "r div 3600000000 = h" "r div 60000000 mod 60 = m" "r div 1000000 mod 60 = s"
    "r mod 1000000 = u"
proof -
  have q: "r div 1000000 = (h * 60 + m) * 60 + s"
    using u by (simp add: r_def)
  have q60: "((h * 60 + m) * 60 + s) div 60 = h * 60 + m"
    using s by simp
  have q3600: "(h * 60 + m) div 60 = h"
    using m by simp
  have a: "r div 60000000 = r div 1000000 div 60"
    by (simp add: div_mult2_eq [symmetric])
  have b: "r div 3600000000 = r div 1000000 div 60 div 60"
    by (simp add: div_mult2_eq [symmetric])
  show "r div 3600000000 = h" unfolding b q q60 q3600 ..
  show "r div 60000000 mod 60 = m" unfolding a q q60 using m by simp
  have "((h * 60 + m) * 60 + s) mod 60 = s mod 60"
    by (rule mod_mult_self3)
  then show "r div 1000000 mod 60 = s" unfolding q using s by (simp only: mod_less)
  have "r mod 1000000 = u mod 1000000"
    unfolding r_def by (rule mod_mult_self3)
  then show "r mod 1000000 = u" using u by (simp only: mod_less)
qed

lemma time_of_day_advance:
  "time_of_day (advance d n) = (time_of_day d + n) mod 86400000000"
  using split_time_of_day [of "(time_of_day d + n) mod 86400000000"]
  by (simp add: advance_def Let_def time_of_day_def [of "_\<lparr>hour := _, minute := _, second := _, microsecond := _\<rparr>"])

lemma toordinal_advance:
  "valid_date d \<Longrightarrow> toordinal (advance d n) = toordinal d + int ((time_of_day d + n) div 86400000000)"
  by (simp add: advance_def Let_def toordinal_funpow)

lemma valid_date_advance: "valid_date d \<Longrightarrow> valid_date (advance d n)"
  by (simp add: advance_def Let_def valid_date_funpow)

text \<open>The ideal clock: \<open>n\<close> microseconds later the timestamp is \<open>n\<close> more.\<close>

lemma timestamp_advance:
  assumes "valid_date d"
  shows "timestamp (advance d n) = timestamp d + int n"
proof -
  let ?t = "time_of_day d + n"
  have "int ?t = int (?t div 86400000000 * 86400000000 + ?t mod 86400000000)"
    by simp
  also have "\<dots> = int (?t div 86400000000) * 86400000000 + int (?t mod 86400000000)"
    by (simp only: of_nat_add of_nat_mult of_nat_numeral)
  finally have split: "int (?t div 86400000000) * 86400000000 + int (?t mod 86400000000)
      = int (time_of_day d) + int n"
    by simp
  have "timestamp (advance d n)
      = (toordinal d + int (?t div 86400000000)) * 86400000000 + int (?t mod 86400000000)"
    by (simp add: timestamp_def toordinal_advance [OF assms] time_of_day_advance)
  also have "\<dots> = toordinal d * 86400000000
      + (int (?t div 86400000000) * 86400000000 + int (?t mod 86400000000))"
    by (simp only: distrib_right add.assoc)
  finally show ?thesis
    unfolding split by (simp add: timestamp_def)
qed

lemma datetime_sub_timestamp: "datetime_sub a b = timestamp a - timestamp b"
  by (simp add: datetime_sub_def timestamp_def time_of_day_def algebra_simps)

lemma time_of_day_less:
  assumes "hour d < 24" "minute d < 60" "second d < 60" "microsecond d < 1000000"
  shows "time_of_day d < 86400000000"
proof -
  have "(hour d * 60 + minute d) * 60 + second d \<le> 86399"
    using assms by arith
  then have "((hour d * 60 + minute d) * 60 + second d) * 1000000 \<le> 86399 * 1000000"
    by (rule mult_le_mono1)
  with assms(4) show ?thesis
    unfolding time_of_day_def by simp
qed

lemma valid_datetime_time_of_day: "valid_datetime d \<Longrightarrow> time_of_day d < 86400000000"
  by (rule time_of_day_less) (simp_all add: valid_datetime_def)

text \<open>Sleeping for the difference to a later time of a later day ends exactly there.\<close>

lemma advance_reaches:
  assumes a: "valid_date a"
    and t: "t = ((next_day ^^ k) a)\<lparr>hour := h, minute := m, second := s, microsecond := u\<rparr>"
    and r: "h < 24" "m < 60" "s < 60" "u < 1000000"
    and later: "time_of_day a \<le> k * 86400000000 + time_of_day t"
  shows "datetime_sub t a = int (k * 86400000000 + time_of_day t) - int (time_of_day a)"
    and "advance a (nat (datetime_sub t a)) = t"
proof -
  have ord: "toordinal t = toordinal a + int k"
    by (simp add: t toordinal_funpow [OF a])
  show sub: "datetime_sub t a = int (k * 86400000000 + time_of_day t) - int (time_of_day a)"
    by (simp add: datetime_sub_timestamp timestamp_def ord algebra_simps)
  have n: "time_of_day a + nat (datetime_sub t a) = k * 86400000000 + time_of_day t"
    using later unfolding sub by (simp add: nat_diff_distrib' del: of_nat_add of_nat_mult)
  have tod: "time_of_day t = ((h * 60 + m) * 60 + s) * 1000000 + u"
    by (simp add: t time_of_day_def)
  have lt: "time_of_day t < 86400000000"
    by (rule time_of_day_less) (simp_all add: t r)
  have dv: "(k * 86400000000 + time_of_day t) div 86400000000 = k"
    using lt by simp
  have md: "(k * 86400000000 + time_of_day t) mod 86400000000 = time_of_day t"
    using lt by simp
  show "advance a (nat (datetime_sub t a)) = t"
    unfolding advance_def Let_def n dv md
    unfolding tod join_time_of_day [OF r(2) r(3) r(4)]
    by (simp add: t)
qed

subsection \<open>The target of the wait\<close>

lemma next_start_same_day:
  assumes "0 \<le> START_HOUR cfg" "START_HOUR cfg \<le> 23" "int (hour now) < START_HOUR cfg"
  shows "next_start cfg now
    = Inr (now\<lparr>hour := nat (START_HOUR cfg), minute := 0, second := 0, microsecond := 0\<rparr>)"
  using assms by (simp add: next_start_def replace_hour_def)

lemma next_start_next_day:
  assumes "0 \<le> START_HOUR cfg" "START_HOUR cfg \<le> 23" "\<not> int (hour now) < START_HOUR cfg"
    and "\<not> (year now = 9999 \<and> month now = 12 \<and> day now = 31)"
  shows "next_start cfg now
    = Inr ((next_day now)\<lparr>hour := nat (START_HOUR cfg), minute := 0, second := 0, microsecond := 0\<rparr>)"
  using assms by (auto simp: next_start_def replace_hour_def plus_one_day_def)

text \<open>Where the target lies, that it is later than \<open>now\<close>, and that the sleep reaches it.\<close>

lemma next_start_target:
  assumes "valid_datetime now" and "0 \<le> START_HOUR cfg" and "START_HOUR cfg \<le> 23"
    and "\<not> (year now = 9999 \<and> month now = 12 \<and> day now = 31)"
  shows "\<exists>target. next_start cfg now = Inr target
           \<and> target = (if int (hour now) < START_HOUR cfg then now else next_day now)
                        \<lparr>hour := nat (START_HOUR cfg), minute := 0, second := 0, microsecond := 0\<rparr>
           \<and> toordinal target
                = (if int (hour now) < START_HOUR cfg then toordinal now else toordinal now + 1)
           \<and> 0 < datetime_sub target now
           \<and> advance now (nat (datetime_sub target now)) = target"
proof -
  let ?S = "nat (START_HOUR cfg)"
  have vd: "valid_date now" by (rule valid_datetime_date) fact
  have S: "?S < 24" using assms(2,3) by simp
  have tod_now: "time_of_day now < 86400000000"
    by (rule valid_datetime_time_of_day) fact
  show ?thesis
  proof (cases "int (hour now) < START_HOUR cfg")
    case True
    let ?t = "now\<lparr>hour := ?S, minute := 0, second := 0, microsecond := 0\<rparr>"
    have ns: "next_start cfg now = Inr ?t"
      by (rule next_start_same_day) fact+
    have t: "?t = ((next_day ^^ 0) now)\<lparr>hour := ?S, minute := 0, second := 0, microsecond := 0\<rparr>"
      by simp
    from True have h: "hour now + 1 \<le> ?S" by simp
    have "time_of_day now < (hour now + 1) * 3600000000"
      using assms(1) unfolding valid_datetime_def time_of_day_def by simp
    also have "\<dots> \<le> ?S * 3600000000"
      using h by (rule mult_le_mono1)
    also have "\<dots> = time_of_day ?t"
      by (simp add: time_of_day_def)
    finally have lt: "time_of_day now < time_of_day ?t" .
    then have later: "time_of_day now \<le> 0 * 86400000000 + time_of_day ?t" by simp
    note r = advance_reaches [OF vd t S _ _ _ later]
    have sub: "datetime_sub ?t now = int (time_of_day ?t) - int (time_of_day now)"
      using r(1) by simp
    have pos: "0 < datetime_sub ?t now"
      unfolding sub using lt by simp
    have adv: "advance now (nat (datetime_sub ?t now)) = ?t"
      by (rule r(2)) simp_all
    from True ns pos adv show ?thesis
      by simp
  next
    case False
    let ?t = "(next_day now)\<lparr>hour := ?S, minute := 0, second := 0, microsecond := 0\<rparr>"
    have ns: "next_start cfg now = Inr ?t"
      by (rule next_start_next_day) fact+
    have t: "?t = ((next_day ^^ 1) now)\<lparr>hour := ?S, minute := 0, second := 0, microsecond := 0\<rparr>"
      by simp
    have later: "time_of_day now \<le> 1 * 86400000000 + time_of_day ?t"
      using tod_now by simp
    note r = advance_reaches [OF vd t S _ _ _ later]
    have sub: "datetime_sub ?t now = int (1 * 86400000000 + time_of_day ?t) - int (time_of_day now)"
      by (rule r(1)) simp_all
    have pos: "0 < datetime_sub ?t now"
      unfolding sub using tod_now by simp
    have adv: "advance now (nat (datetime_sub ?t now)) = ?t"
      by (rule r(2)) simp_all
    have ord: "toordinal ?t = toordinal now + 1"
      by (simp add: toordinal_next_day [OF vd])
    from False ns pos adv ord show ?thesis
      by simp
  qed
qed

text \<open>
  C3. Let \<open>START_HOUR\<close> be an hour of the day and \<open>now\<close> a datetime outside the recording
  window, not on the last day of year 9999 (where adding a day overflows). The target that
  \<open>wait_until_start\<close> computes is \<open>START_HOUR:00:00\<close> of the same date when the hour of \<open>now\<close>
  is less than \<open>START_HOUR\<close>, and \<open>START_HOUR:00:00\<close> of the next date (the ordinal of the
  date is one more) otherwise. The target is later than \<open>now\<close>, and a sleep of the
  difference ends exactly at the target. With \<open>START_HOUR = 5\<close> and \<open>END_HOUR = 0\<close>: at
  04:59:59 of any date the window is closed and the target is 05:00:00 of that date, and at
  05:00:00 the window is open.
\<close>

theorem next_open_time:
  assumes "valid_datetime now" and "0 \<le> START_HOUR cfg" and "START_HOUR cfg \<le> 23"
    and "\<not> within_recording_window cfg now"
    and "\<not> (year now = 9999 \<and> month now = 12 \<and> day now = 31)"
  shows "(\<exists>target. next_start cfg now = Inr target
           \<and> target = (if int (hour now) < START_HOUR cfg then now else next_day now)
                        \<lparr>hour := nat (START_HOUR cfg), minute := 0, second := 0, microsecond := 0\<rparr>
           \<and> toordinal target
                = (if int (hour now) < START_HOUR cfg then toordinal now else toordinal now + 1)
           \<and> 0 < datetime_sub target now
           \<and> advance now (nat (datetime_sub target now)) = target)
    \<and> (\<not> within_recording_window configured
             \<lparr>year = y, month = m, day = d, hour = 4, minute = 59, second = 59, microsecond = us\<rparr>
         \<and> next_start configured
             \<lparr>year = y, month = m, day = d, hour = 4, minute = 59, second = 59, microsecond = us\<rparr>
           = Inr \<lparr>year = y, month = m, day = d, hour = 5, minute = 0, second = 0, microsecond = 0\<rparr>
         \<and> within_recording_window configured
             \<lparr>year = y, month = m, day = d, hour = 5, minute = 0, second = 0, microsecond = 0\<rparr>)"
proof (rule conjI)
  show "\<exists>target. next_start cfg now = Inr target
           \<and> target = (if int (hour now) < START_HOUR cfg then now else next_day now)
                        \<lparr>hour := nat (START_HOUR cfg), minute := 0, second := 0, microsecond := 0\<rparr>
           \<and> toordinal target
                = (if int (hour now) < START_HOUR cfg then toordinal now else toordinal now + 1)
           \<and> 0 < datetime_sub target now
           \<and> advance now (nat (datetime_sub target now)) = target"
    by (rule next_start_target) fact+
  show "\<not> within_recording_window configured
             \<lparr>year = y, month = m, day = d, hour = 4, minute = 59, second = 59, microsecond = us\<rparr>
         \<and> next_start configured
             \<lparr>year = y, month = m, day = d, hour = 4, minute = 59, second = 59, microsecond = us\<rparr>
           = Inr \<lparr>year = y, month = m, day = d, hour = 5, minute = 0, second = 0, microsecond = 0\<rparr>
         \<and> within_recording_window configured
             \<lparr>year = y, month = m, day = d, hour = 5, minute = 0, second = 0, microsecond = 0\<rparr>"
    by (simp add: within_recording_window_def configured_def next_start_def replace_hour_def)
qed

theorem next_open_time_witness:
  "valid_datetime before_five \<and> \<not> within_recording_window configured before_five
   \<and> next_start configured before_five
       = Inr \<lparr>year = 2024, month = 3, day = 9, hour = 5, minute = 0, second = 0, microsecond = 0\<rparr>
   \<and> valid_datetime late_evening
   \<and> \<not> within_recording_window (configured\<lparr>END_HOUR := 22\<rparr>) late_evening
   \<and> next_start (configured\<lparr>END_HOUR := 22\<rparr>) late_evening
       = Inr \<lparr>year = 2024, month = 2, day = 29, hour = 5, minute = 0, second = 0, microsecond = 0\<rparr>"
proof -
  have v1: "valid_datetime before_five"
    by (simp add: before_five_def valid_datetime_def days_in_month_def)
  have c1: "\<not> within_recording_window configured before_five"
    by (simp add: before_five_def within_recording_window_def configured_def)
  have v2: "valid_datetime late_evening"
    by (simp add: late_evening_def valid_datetime_def days_in_month_def is_leap_def)
  have c2: "\<not> within_recording_window (configured\<lparr>END_HOUR := 22\<rparr>) late_evening"
    by (simp add: late_evening_def within_recording_window_def configured_def)
  have n1: "\<not> (year before_five = 9999 \<and> month before_five = 12 \<and> day before_five = 31)"
    by (simp add: before_five_def)
  have n2: "\<not> (year late_evening = 9999 \<and> month late_evening = 12 \<and> day late_evening = 31)"
    by (simp add: late_evening_def)
  have s1: "0 \<le> START_HOUR configured" "START_HOUR configured \<le> 23"
    by (simp_all add: configured_def)
  have s2: "0 \<le> START_HOUR (configured\<lparr>END_HOUR := 22\<rparr>)" "START_HOUR (configured\<lparr>END_HOUR := 22\<rparr>) \<le> 23"
    by (simp_all add: configured_def)
  from next_open_time [OF v1 s1 c1 n1]
  have t1: "next_start configured before_five
       = Inr \<lparr>year = 2024, month = 3, day = 9, hour = 5, minute = 0, second = 0, microsecond = 0\<rparr>"
    by (auto simp: before_five_def configured_def)
  from next_open_time [OF v2 s2 c2 n2]
  have t2: "next_start (configured\<lparr>END_HOUR := 22\<rparr>) late_evening
       = Inr \<lparr>year = 2024, month = 2, day = 29, hour = 5, minute = 0, second = 0, microsecond = 0\<rparr>"
    by (auto simp: late_evening_def configured_def next_day_def days_in_month_def is_leap_def)
  from v1 c1 t1 v2 c2 t2 show ?thesis by blast
qed

subsection \<open>The file name of a chunk\<close>

lemma digit_cases:
  "d < 10 \<Longrightarrow> d = 0 \<or> d = 1 \<or> d = 2 \<or> d = 3 \<or> d = 4 \<or> d = 5 \<or> d = 6 \<or> d = 7 \<or> d = 8 \<or> d = (9::nat)"
  by arith

lemma is_digit_digit_char: "d < 10 \<Longrightarrow> is_digit (digit_char d)"
  by (drule digit_cases) (auto simp: is_digit_def digit_char_def)

lemma digit_val_digit_char: "d < 10 \<Longrightarrow> digit_val (digit_char d) = d"
  by (drule digit_cases) (auto simp: digit_val_def digit_char_def)

lemma str_nat_digits: "\<forall>c \<in> set (str_nat n). is_digit c"
proof (induction n rule: str_nat.induct)
  case (1 n)
  show ?case
  proof (cases "n < 10")
    case True
    then show ?thesis
      by (subst str_nat.simps) (simp add: is_digit_digit_char)
  next
    case False
    with 1 show ?thesis
      by (subst str_nat.simps) (simp add: is_digit_digit_char)
  qed
qed

lemma read_nat_snoc: "read_nat (s @ [c]) = 10 * read_nat s + digit_val c"
  by (simp add: read_nat_def)

lemma read_nat_str_nat: "read_nat (str_nat n) = n"
proof (induction n rule: str_nat.induct)
  case (1 n)
  show ?case
  proof (cases "n < 10")
    case True
    then show ?thesis
      by (subst str_nat.simps) (simp add: read_nat_def digit_val_digit_char)
  next
    case False
    with 1 have "read_nat (str_nat (n div 10)) = n div 10" by simp
    with False show ?thesis
      by (subst str_nat.simps) (simp add: read_nat_snoc digit_val_digit_char)
  qed
qed

lemma digit_val_zero: "digit_val CHR ''0'' = 0"
  by (simp add: digit_val_def)

lemma is_digit_zero: "is_digit CHR ''0''"
  by (simp add: is_digit_def)

lemma read_nat_zeros: "read_nat (replicate k CHR ''0'' @ s) = read_nat s"
proof -
  have "foldl (\<lambda>a c. 10 * a + digit_val c) 0 (replicate k CHR ''0'') = 0"
    by (induction k) (simp_all add: digit_val_zero)
  then show ?thesis
    by (simp add: read_nat_def)
qed

lemma read_nat_zero_pad: "read_nat (zero_pad w n) = n"
  by (simp add: zero_pad_def read_nat_zeros read_nat_str_nat)

lemma zero_pad_inj:
  assumes "zero_pad w n = zero_pad w' n'"
  shows "n = n'"
proof -
  have "n = read_nat (zero_pad w n)" by (simp only: read_nat_zero_pad)
  also have "\<dots> = read_nat (zero_pad w' n')" by (simp only: assms)
  also have "\<dots> = n'" by (simp only: read_nat_zero_pad)
  finally show ?thesis .
qed

lemma zero_pad_digits: "\<forall>c \<in> set (zero_pad w n). is_digit c"
  using str_nat_digits [of n] by (simp add: zero_pad_def is_digit_zero ball_Un)

text \<open>Two runs of digits that end at a character which is no digit end at the same place.\<close>

lemma digits_until:
  assumes "\<forall>c \<in> set xs. is_digit c" "\<forall>c \<in> set ys. is_digit c" "\<not> is_digit c"
    and "xs @ c # r = ys @ c # r'"
  shows "xs = ys \<and> r = r'"
  using assms
proof (induction xs arbitrary: ys)
  case Nil
  then show ?case by (cases ys) auto
next
  case (Cons x xs)
  then show ?case by (cases ys) auto
qed

lemma field_until:
  assumes "\<not> is_digit c" and "zero_pad w n @ c # r = zero_pad w' n' @ c # r'"
  shows "n = n' \<and> r = r'"
  using digits_until [OF zero_pad_digits zero_pad_digits assms] zero_pad_inj by blast

lemma not_digit_dash: "\<not> is_digit CHR ''-''"
  by (simp add: is_digit_def)

lemma not_digit_bracket: "\<not> is_digit CHR '']''"
  by (simp add: is_digit_def)

lemma generate_filename_fields:
  "generate_filename n a =
     CHR ''['' # zero_pad 4 (year a) @ CHR ''-'' # zero_pad 2 (month a) @ CHR ''-'' #
       zero_pad 2 (day a) @ CHR '']'' # CHR ''-'' # CHR ''['' #
       zero_pad 2 (hour a) @ CHR ''-'' # zero_pad 2 (minute a) @ CHR ''-'' #
       zero_pad 2 (second a) @ CHR '']'' # CHR ''-'' # safe_name n @ ''.mp3''"
  by (simp add: generate_filename_def date_str_def time_str_def)

lemma strip_two: "c # d # x = c # d # y \<Longrightarrow> x = y"
  by simp

text \<open>The file name determines the date and the time to the second.\<close>

lemma filename_fields_eq:
  assumes "generate_filename n a = generate_filename n' b"
  shows "year a = year b \<and> month a = month b \<and> day a = day b
         \<and> hour a = hour b \<and> minute a = minute b \<and> second a = second b"
proof -
  from assms have e0:
    "zero_pad 4 (year a) @ CHR ''-'' # zero_pad 2 (month a) @ CHR ''-'' #
       zero_pad 2 (day a) @ CHR '']'' # CHR ''-'' # CHR ''['' #
       zero_pad 2 (hour a) @ CHR ''-'' # zero_pad 2 (minute a) @ CHR ''-'' #
       zero_pad 2 (second a) @ CHR '']'' # CHR ''-'' # safe_name n @ ''.mp3''
     = zero_pad 4 (year b) @ CHR ''-'' # zero_pad 2 (month b) @ CHR ''-'' #
       zero_pad 2 (day b) @ CHR '']'' # CHR ''-'' # CHR ''['' #
       zero_pad 2 (hour b) @ CHR ''-'' # zero_pad 2 (minute b) @ CHR ''-'' #
       zero_pad 2 (second b) @ CHR '']'' # CHR ''-'' # safe_name n' @ ''.mp3''"
    unfolding generate_filename_fields by (rule list.inject [THEN iffD1, THEN conjunct2])
  note s1 = field_until [OF not_digit_dash e0]
  note s2 = field_until [OF not_digit_dash s1 [THEN conjunct2]]
  note s3 = field_until [OF not_digit_bracket s2 [THEN conjunct2]]
  note s4 = field_until [OF not_digit_dash strip_two [OF s3 [THEN conjunct2]]]
  note s5 = field_until [OF not_digit_dash s4 [THEN conjunct2]]
  note s6 = field_until [OF not_digit_bracket s5 [THEN conjunct2]]
  from s1 s2 s3 s4 s5 s6 show ?thesis by blast
qed

lemma safe_name_chars:
  "length (safe_name n) = length n"
  "\<forall>c \<in> set (safe_name n). c \<notin> set unsafe_chars"
  "\<forall>i < length n. safe_name n ! i = (if n ! i \<in> set unsafe_chars then CHR ''_'' else n ! i)"
  by (auto simp: safe_name_def unsafe_chars_def)

text \<open>
  C7. The file name is the function \<open>[YYYY-MM-DD]-[HH-MM-SS]-name.mp3\<close> of the station name
  and the clock reading, where in the name every character of \<open><>:"/\|?*\<close> is replaced by
  an underscore and every other character is kept. For two clock readings that are at
  least one second apart, the file names of one station differ.
\<close>

theorem filename_unique:
  assumes "valid_datetime a" and "valid_datetime b" and "1000000 \<le> \<bar>datetime_sub b a\<bar>"
  shows "generate_filename station_name a \<noteq> generate_filename station_name b
         \<and> generate_filename station_name a
             = ''['' @ date_str a @ '']-['' @ time_str a @ '']-'' @ safe_name station_name @ ''.mp3''
         \<and> length (safe_name station_name) = length station_name
         \<and> (\<forall>c \<in> set (safe_name station_name). c \<notin> set unsafe_chars)
         \<and> (\<forall>i < length station_name. safe_name station_name ! i
               = (if station_name ! i \<in> set unsafe_chars then CHR ''_'' else station_name ! i))"
proof -
  have "generate_filename station_name a \<noteq> generate_filename station_name b"
  proof
    assume "generate_filename station_name a = generate_filename station_name b"
    from filename_fields_eq [OF this]
    have "datetime_sub b a = int (microsecond b) - int (microsecond a)"
      by (simp add: datetime_sub_def toordinal_def)
    moreover have "microsecond a < 1000000" "microsecond b < 1000000"
      using assms(1,2) by (simp_all add: valid_datetime_def)
    ultimately have "\<bar>datetime_sub b a\<bar> < 1000000" by simp
    with assms(3) show False by simp
  qed
  with safe_name_chars [of station_name] show ?thesis
    by (simp add: generate_filename_def)
qed

lemma one_second_apart: "datetime_sub first_second last_second = 1000000"
  by (simp add: datetime_sub_def toordinal_def days_before_year_def days_before_month_def
      is_leap_def first_second_def last_second_def)

theorem filename_unique_witness:
  "valid_datetime last_second \<and> valid_datetime first_second
   \<and> 1000000 \<le> \<bar>datetime_sub first_second last_second\<bar>
   \<and> generate_filename ''DZ/MM: 101.1'' last_second = ''[2024-12-31]-[23-59-59]-DZ_MM_ 101.1.mp3''
   \<and> generate_filename ''DZ/MM: 101.1'' first_second = ''[2025-01-01]-[00-00-00]-DZ_MM_ 101.1.mp3''
   \<and> generate_filename ''DZ/MM: 101.1'' last_second \<noteq> generate_filename ''DZ/MM: 101.1'' first_second"
proof -
  have v1: "valid_datetime last_second"
    by (simp add: last_second_def valid_datetime_def days_in_month_def)
  have v2: "valid_datetime first_second"
    by (simp add: first_second_def valid_datetime_def days_in_month_def)
  have d: "1000000 \<le> \<bar>datetime_sub first_second last_second\<bar>"
    by (simp add: one_second_apart)
  have f1: "generate_filename ''DZ/MM: 101.1'' last_second = ''[2024-12-31]-[23-59-59]-DZ_MM_ 101.1.mp3''"
    by (simp add: generate_filename_def date_str_def time_str_def zero_pad_def str_nat.simps
        digit_char_def safe_name_def unsafe_chars_def last_second_def)
  have f2: "generate_filename ''DZ/MM: 101.1'' first_second = ''[2025-01-01]-[00-00-00]-DZ_MM_ 101.1.mp3''"
    by (simp add: generate_filename_def date_str_def time_str_def zero_pad_def str_nat.simps
        digit_char_def safe_name_def unsafe_chars_def first_second_def)
  from filename_unique [OF v1 v2 d, of "''DZ/MM: 101.1''"]
  have "generate_filename ''DZ/MM: 101.1'' last_second \<noteq> generate_filename ''DZ/MM: 101.1'' first_second"
    by (rule conjunct1)
  with v1 v2 d f1 f2 show ?thesis by blast
qed

subsection \<open>The overlap of consecutive chunks\<close>

lemma print_keeps [simp]:
  "clock (print line w) = clock w" "threads (print line w) = threads w"
  by (simp_all add: print_def)

lemma time_sleep_Inr:
  "time_sleep us w = Inr w' \<longleftrightarrow> 0 \<le> us \<and> w' = w\<lparr>clock := advance (clock w) (nat us)\<rparr>"
  by (auto simp: time_sleep_def)

lemma wait_until_start_keeps:
  assumes "wait_until_start cfg w = Some r"
  shows "valid_date (clock w) \<longrightarrow>
         (\<forall>w'. r = Inr w' \<longrightarrow>
            valid_date (clock w') \<and> within_recording_window cfg (clock w') \<and> threads w' = threads w)"
  using assms
proof (induction cfg w r rule: wait_until_start.raw_induct [rotated 1, consumes 1])
  case (1 wait cfg w r)
  from 1(2) have body:
    "(if within_recording_window cfg (clock w) then Some (Inr w)
      else (case next_start cfg (clock w) of
              Inl e \<Rightarrow> Some (Inl e)
            | Inr target \<Rightarrow>
                (case time_sleep (datetime_sub target (clock w)) (print (wait_message cfg target (clock w)) w) of
                       Inl e \<Rightarrow> Some (Inl e)
                     | Inr w2 \<Rightarrow> wait cfg w2))) = Some r"
    unfolding Let_def wait_message_def .
  show ?case
  proof (cases "within_recording_window cfg (clock w)")
    case True
    with body have "r = Inr w" by simp
    with True show ?thesis by simp
  next
    case False
    show ?thesis
    proof (cases "next_start cfg (clock w)")
      case (Inl e)
      with False body have "r = Inl e" by simp
      then show ?thesis by simp
    next
      case (Inr target)
      show ?thesis
      proof (cases "time_sleep (datetime_sub target (clock w)) (print (wait_message cfg target (clock w)) w)")
        case (Inl e)
        with False Inr body have "r = Inl e" by simp
        then show ?thesis by simp
      next
        case sl: (Inr w2)
        with False Inr body have rec: "wait cfg w2 = Some r" by simp
        from sl have w2: "w2 = (print (wait_message cfg target (clock w)) w)
            \<lparr>clock := advance (clock w) (nat (datetime_sub target (clock w)))\<rparr>"
          by (simp add: time_sleep_Inr)
        have th: "threads w2 = threads w"
          by (simp add: w2)
        have vd: "valid_date (clock w) \<Longrightarrow> valid_date (clock w2)"
          by (simp add: w2 valid_date_advance)
        note ih = 1(1) [OF rec]
        show ?thesis
        proof (intro impI allI)
          fix w'
          assume v: "valid_date (clock w)" and r: "r = Inr w'"
          from ih vd [OF v] r
          have "valid_date (clock w') \<and> within_recording_window cfg (clock w') \<and> threads w' = threads w2"
            by blast
          then show "valid_date (clock w') \<and> within_recording_window cfg (clock w') \<and> threads w' = threads w"
            by (simp only: th)
        qed
      qed
    qed
  qed
qed

text \<open>The wait returns at once inside the window. Outside it, when \<open>START_HOUR\<close> is an hour
  of the day at which the window is open, it prints the message, sleeps until the target
  and then returns.\<close>

lemma wait_until_start_open:
  "within_recording_window cfg (clock w) \<Longrightarrow> wait_until_start cfg w = Some (Inr w)"
  by (subst wait_until_start.simps) simp

lemma wait_until_start_closed:
  assumes closed: "\<not> within_recording_window cfg (clock w)"
    and v: "valid_datetime (clock w)"
    and S: "0 \<le> START_HOUR cfg" "START_HOUR cfg \<le> 23"
    and E: "END_HOUR cfg = 0 \<or> START_HOUR cfg < END_HOUR cfg"
    and last: "\<not> (year (clock w) = 9999 \<and> month (clock w) = 12 \<and> day (clock w) = 31)"
  shows "\<exists>target. next_start cfg (clock w) = Inr target
           \<and> wait_until_start cfg w
               = Some (Inr ((print (wait_message cfg target (clock w)) w)\<lparr>clock := target\<rparr>))"
proof -
  from next_start_target [OF v S last] obtain target where
    ns: "next_start cfg (clock w) = Inr target"
    and h: "hour target = nat (START_HOUR cfg)"
    and pos: "0 < datetime_sub target (clock w)"
    and adv: "advance (clock w) (nat (datetime_sub target (clock w))) = target"
    by (auto split: if_splits)
  let ?w2 = "(print (wait_message cfg target (clock w)) w)\<lparr>clock := target\<rparr>"
  have sl: "time_sleep (datetime_sub target (clock w)) (print (wait_message cfg target (clock w)) w)
      = Inr ?w2"
    using pos adv by (simp add: time_sleep_Inr)
  have "within_recording_window cfg target"
    using S E by (auto simp: within_recording_window_def h Let_def)
  then have "wait_until_start cfg ?w2 = Some (Inr ?w2)"
    by (simp add: wait_until_start_open)
  moreover have "wait_until_start cfg w = wait_until_start cfg ?w2"
    using closed ns sl
    by (subst wait_until_start.simps) (simp add: Let_def wait_message_def)
  ultimately show ?thesis
    using ns by simp
qed

text \<open>What one pass of the supervisor's loop does when it returns: it starts one thread at
  a clock reading inside the window and leaves the clock \<open>OVERLAP_START\<close> later.\<close>

lemma record_station_body_Inr:
  assumes body: "record_station_body cfg station_name station_url w = Some (Inr w')"
    and vd: "valid_date (clock w)"
  shows "\<exists>t. threads w' = threads w @ [t]
           \<and> arg_duration t = RECORD_DURATION cfg
           \<and> valid_date (started t)
           \<and> within_recording_window cfg (started t)
           \<and> (within_recording_window cfg (clock w) \<longrightarrow> started t = clock w)
           \<and> 0 \<le> OVERLAP_START cfg
           \<and> clock w' = advance (started t) (nat (OVERLAP_START cfg * 1000000))"
proof -
  let ?pre = "if \<not> within_recording_window cfg (clock w) then wait_until_start cfg w else Some (Inr w)"
  let ?t = "\<lambda>w1. \<lparr>arg_station_name = station_name, arg_station_url = station_url,
                   arg_filename = generate_filename station_name (clock w1),
                   arg_duration = RECORD_DURATION cfg, started = clock w1\<rparr>"
  from body have "\<exists>w1. ?pre = Some (Inr w1)
      \<and> time_sleep (OVERLAP_START cfg * 1000000) (thread_start (?t w1) w1) = Inr w'"
    unfolding record_station_body_def Let_def
    by (cases ?pre) (auto split: sum.splits)
  then obtain w1 where pre: "?pre = Some (Inr w1)"
    and sl: "time_sleep (OVERLAP_START cfg * 1000000) (thread_start (?t w1) w1) = Inr w'"
    by blast
  have k: "valid_date (clock w1) \<and> within_recording_window cfg (clock w1) \<and> threads w1 = threads w
      \<and> (within_recording_window cfg (clock w) \<longrightarrow> clock w1 = clock w)"
  proof (cases "within_recording_window cfg (clock w)")
    case True
    with pre have "w1 = w" by simp
    with True vd show ?thesis by simp
  next
    case False
    with pre have "wait_until_start cfg w = Some (Inr w1)" by simp
    from wait_until_start_keeps [OF this] vd False show ?thesis by simp
  qed
  from sl have S: "0 \<le> OVERLAP_START cfg"
    and w': "w' = (thread_start (?t w1) w1)
               \<lparr>clock := advance (clock w1) (nat (OVERLAP_START cfg * 1000000))\<rparr>"
    by (simp_all add: time_sleep_Inr thread_start_def)
  have "threads w' = threads w @ [?t w1]"
    using k by (simp add: w' thread_start_def)
  moreover have "clock w' = advance (started (?t w1)) (nat (OVERLAP_START cfg * 1000000))"
    by (simp add: w' thread_start_def)
  ultimately show ?thesis
    using k S by (intro exI [of _ "?t w1"]) simp
qed

text \<open>Two passes of the loop of \<open>record_station\<close> are two passes of its body.\<close>

lemma record_station_loop_two:
  assumes "record_station_loop (Suc (Suc 0)) cfg station_name station_url w = Some (Inr w2)"
  shows "\<exists>w1. record_station_body cfg station_name station_url w = Some (Inr w1)
           \<and> record_station_body cfg station_name station_url w1 = Some (Inr w2)"
  using assms by (auto split: option.splits sum.splits)

lemma overlap_arith:
  fixes T s d :: int
  assumes "0 \<le> s" "s < d"
  shows "max 0 (min (T + d) (T + s + d) - max T (T + s)) = d - s"
  using assms by (simp add: min_def max_def)

text \<open>
  C6, as the code has it. Let the supervisor make two passes through its loop, and let the
  recording window be open when the second pass begins. Then the two passes start two
  threads, the second \<open>OVERLAP_START\<close> seconds after the first, and with
  \<open>OVERLAP_START < RECORD_DURATION\<close> the active intervals of the two chunks overlap for
  exactly \<open>RECORD_DURATION - OVERLAP_START\<close> seconds. The configured values, 840 and 900
  seconds, satisfy \<open>OVERLAP_START < RECORD_DURATION\<close>.
\<close>

theorem consecutive_overlap:
  assumes "valid_datetime (clock w)"
    and "record_station_body cfg station_name station_url w = Some (Inr w1)"
    and "within_recording_window cfg (clock w1)"
    and "record_station_body cfg station_name station_url w1 = Some (Inr w2)"
    and "OVERLAP_START cfg < RECORD_DURATION cfg"
  shows "(\<exists>t1 t2. threads w2 = threads w @ [t1, t2]
            \<and> active_from t2 = active_from t1 + OVERLAP_START cfg * 1000000
            \<and> overlap_us t1 t2 = (RECORD_DURATION cfg - OVERLAP_START cfg) * 1000000)
         \<and> OVERLAP_START configured < RECORD_DURATION configured"
proof (rule conjI)
  have vd: "valid_date (clock w)" by (rule valid_datetime_date) fact
  from record_station_body_Inr [OF assms(2) vd] obtain t1 where
    th1: "threads w1 = threads w @ [t1]" and d1: "arg_duration t1 = RECORD_DURATION cfg"
    and v1: "valid_date (started t1)" and S: "0 \<le> OVERLAP_START cfg"
    and c1: "clock w1 = advance (started t1) (nat (OVERLAP_START cfg * 1000000))"
    by blast
  have vd1: "valid_date (clock w1)"
    unfolding c1 by (rule valid_date_advance) fact
  from record_station_body_Inr [OF assms(4) vd1] assms(3) obtain t2 where
    th2: "threads w2 = threads w1 @ [t2]" and d2: "arg_duration t2 = RECORD_DURATION cfg"
    and s2: "started t2 = clock w1"
    by blast
  have ts: "timestamp (started t2) = timestamp (started t1) + OVERLAP_START cfg * 1000000"
    unfolding s2 c1 using S by (simp add: timestamp_advance [OF v1])
  have s: "0 \<le> OVERLAP_START cfg * 1000000"
    using S by simp
  have d: "OVERLAP_START cfg * 1000000 < RECORD_DURATION cfg * 1000000"
    using assms(5) by simp
  have "overlap_us t1 t2 = RECORD_DURATION cfg * 1000000 - OVERLAP_START cfg * 1000000"
    unfolding overlap_us_def active_from_def active_until_def ts d1 d2
    by (rule overlap_arith [OF s d])
  then have ov: "overlap_us t1 t2 = (RECORD_DURATION cfg - OVERLAP_START cfg) * 1000000"
    by (simp add: left_diff_distrib)
  have "threads w2 = threads w @ [t1, t2]"
    by (simp add: th2 th1)
  with ts ov show "\<exists>t1 t2. threads w2 = threads w @ [t1, t2]
            \<and> active_from t2 = active_from t1 + OVERLAP_START cfg * 1000000
            \<and> overlap_us t1 t2 = (RECORD_DURATION cfg - OVERLAP_START cfg) * 1000000"
    unfolding active_from_def by blast
  show "OVERLAP_START configured < RECORD_DURATION configured"
    by (simp add: configured_def)
qed

lemma record_station_body_open:
  assumes "within_recording_window cfg (clock w)" and "0 \<le> OVERLAP_START cfg"
  shows "record_station_body cfg station_name station_url w
    = Some (Inr ((thread_start \<lparr>arg_station_name = station_name, arg_station_url = station_url,
                     arg_filename = generate_filename station_name (clock w),
                     arg_duration = RECORD_DURATION cfg, started = clock w\<rparr> w)
                  \<lparr>clock := advance (clock w) (nat (OVERLAP_START cfg * 1000000))\<rparr>))"
  using assms by (simp add: record_station_body_def time_sleep_def thread_start_def)

lemma record_station_body_closed:
  assumes "\<not> within_recording_window cfg (clock w)"
    and "valid_datetime (clock w)"
    and "0 \<le> START_HOUR cfg" "START_HOUR cfg \<le> 23"
    and "END_HOUR cfg = 0 \<or> START_HOUR cfg < END_HOUR cfg"
    and "\<not> (year (clock w) = 9999 \<and> month (clock w) = 12 \<and> day (clock w) = 31)"
    and "0 \<le> OVERLAP_START cfg"
  shows "\<exists>target w'. next_start cfg (clock w) = Inr target
           \<and> record_station_body cfg station_name station_url w = Some (Inr w')
           \<and> threads w' = threads w @ [\<lparr>arg_station_name = station_name, arg_station_url = station_url,
                     arg_filename = generate_filename station_name target,
                     arg_duration = RECORD_DURATION cfg, started = target\<rparr>]"
proof -
  from wait_until_start_closed [OF assms(1-6)] obtain target where
    ns: "next_start cfg (clock w) = Inr target"
    and wt: "wait_until_start cfg w
               = Some (Inr ((print (wait_message cfg target (clock w)) w)\<lparr>clock := target\<rparr>))"
    by blast
  show ?thesis
    using assms(1,7) ns wt
    by (simp add: record_station_body_def time_sleep_def thread_start_def)
qed

lemma advance_evening:
  "advance \<lparr>year = 2024, month = 3, day = 9, hour = 22, minute = 0, second = 0, microsecond = 0\<rparr> 840000000
     = \<lparr>year = 2024, month = 3, day = 9, hour = 22, minute = 14, second = 0, microsecond = 0\<rparr>"
  by (simp add: advance_def time_of_day_def Let_def)

lemma advance_closing:
  "advance \<lparr>year = 2024, month = 3, day = 9, hour = 23, minute = 50, second = 0, microsecond = 0\<rparr> 840000000
     = \<lparr>year = 2024, month = 3, day = 10, hour = 0, minute = 4, second = 0, microsecond = 0\<rparr>"
  by (simp add: advance_def time_of_day_def Let_def next_day_def days_in_month_def)

theorem consecutive_overlap_witness:
  "\<exists>w1 w2 t1 t2.
      valid_datetime (clock evening_world)
      \<and> record_station_body configured ''A'' ''http://a'' evening_world = Some (Inr w1)
      \<and> within_recording_window configured (clock w1)
      \<and> record_station_body configured ''A'' ''http://a'' w1 = Some (Inr w2)
      \<and> OVERLAP_START configured < RECORD_DURATION configured
      \<and> threads w2 = [t1, t2]
      \<and> overlap_us t1 t2 = 60000000"
proof -
  define w1 where "w1 = (thread_start \<lparr>arg_station_name = ''A'', arg_station_url = ''http://a'',
                     arg_filename = generate_filename ''A'' (clock evening_world),
                     arg_duration = RECORD_DURATION configured, started = clock evening_world\<rparr> evening_world)
                  \<lparr>clock := advance (clock evening_world) (nat (OVERLAP_START configured * 1000000))\<rparr>"
  define w2 where "w2 = (thread_start \<lparr>arg_station_name = ''A'', arg_station_url = ''http://a'',
                     arg_filename = generate_filename ''A'' (clock w1),
                     arg_duration = RECORD_DURATION configured, started = clock w1\<rparr> w1)
                  \<lparr>clock := advance (clock w1) (nat (OVERLAP_START configured * 1000000))\<rparr>"
  have S: "0 \<le> OVERLAP_START configured" and lt: "OVERLAP_START configured < RECORD_DURATION configured"
    by (simp_all add: configured_def)
  have v: "valid_datetime (clock evening_world)"
    by (simp add: evening_world_def example_world_def valid_datetime_def days_in_month_def)
  have win0: "within_recording_window configured (clock evening_world)"
    by (simp add: evening_world_def example_world_def within_recording_window_def configured_def)
  have c1: "clock w1 = \<lparr>year = 2024, month = 3, day = 9, hour = 22, minute = 14, second = 0, microsecond = 0\<rparr>"
    by (simp add: w1_def evening_world_def example_world_def configured_def advance_evening)
  have win1: "within_recording_window configured (clock w1)"
    unfolding c1 by (simp add: within_recording_window_def configured_def)
  have b1: "record_station_body configured ''A'' ''http://a'' evening_world = Some (Inr w1)"
    unfolding w1_def by (rule record_station_body_open [OF win0 S])
  have b2: "record_station_body configured ''A'' ''http://a'' w1 = Some (Inr w2)"
    unfolding w2_def by (rule record_station_body_open [OF win1 S])
  from consecutive_overlap [OF v b1 win1 b2 lt] obtain t1 t2 where
    "threads w2 = threads evening_world @ [t1, t2]"
    and "overlap_us t1 t2 = (RECORD_DURATION configured - OVERLAP_START configured) * 1000000"
    by blast
  then have "threads w2 = [t1, t2]" and "overlap_us t1 t2 = 60000000"
    by (simp_all add: evening_world_def example_world_def configured_def)
  with v b1 win1 b2 lt show ?thesis by blast
qed

text \<open>
  The claim as stated, for any two consecutively scheduled chunks, fails where the window
  closes between them. With the configured values, a chunk started at 23:50:00 is followed
  by a pass at 00:04:00, outside the window; the supervisor waits, and the next chunk
  starts at 05:00:00. The first chunk ended at 00:05:00, so the two do not overlap at all.
\<close>

theorem consecutive_overlap_counterexample:
  "\<exists>w1 w2 t1 t2.
      record_station_body configured ''A'' ''http://a'' closing_world = Some (Inr w1)
      \<and> record_station_body configured ''A'' ''http://a'' w1 = Some (Inr w2)
      \<and> threads w2 = [t1, t2]
      \<and> started t1 = \<lparr>year = 2024, month = 3, day = 9, hour = 23, minute = 50, second = 0, microsecond = 0\<rparr>
      \<and> started t2 = \<lparr>year = 2024, month = 3, day = 10, hour = 5, minute = 0, second = 0, microsecond = 0\<rparr>
      \<and> OVERLAP_START configured < RECORD_DURATION configured
      \<and> overlap_us t1 t2 = 0
      \<and> overlap_us t1 t2 \<noteq> (RECORD_DURATION configured - OVERLAP_START configured) * 1000000"
proof -
  let ?t1 = "\<lparr>arg_station_name = ''A'', arg_station_url = ''http://a'',
                     arg_filename = generate_filename ''A'' (clock closing_world),
                     arg_duration = RECORD_DURATION configured, started = clock closing_world\<rparr>"
  define w1 where "w1 = (thread_start ?t1 closing_world)
                  \<lparr>clock := advance (clock closing_world) (nat (OVERLAP_START configured * 1000000))\<rparr>"
  have S: "0 \<le> OVERLAP_START configured" and lt: "OVERLAP_START configured < RECORD_DURATION configured"
    and H: "0 \<le> START_HOUR configured" "START_HOUR configured \<le> 23"
    and E: "END_HOUR configured = 0 \<or> START_HOUR configured < END_HOUR configured"
    by (simp_all add: configured_def)
  have win0: "within_recording_window configured (clock closing_world)"
    by (simp add: closing_world_def example_world_def within_recording_window_def configured_def)
  have b1: "record_station_body configured ''A'' ''http://a'' closing_world = Some (Inr w1)"
    unfolding w1_def by (rule record_station_body_open [OF win0 S])
  have c1: "clock w1 = \<lparr>year = 2024, month = 3, day = 10, hour = 0, minute = 4, second = 0, microsecond = 0\<rparr>"
    by (simp add: w1_def closing_world_def example_world_def configured_def advance_closing)
  have th1: "threads w1 = [?t1]"
    by (simp add: w1_def thread_start_def closing_world_def example_world_def)
  have v1: "valid_datetime (clock w1)"
    unfolding c1 by (simp add: valid_datetime_def days_in_month_def)
  have closed: "\<not> within_recording_window configured (clock w1)"
    unfolding c1 by (simp add: within_recording_window_def configured_def)
  have last: "\<not> (year (clock w1) = 9999 \<and> month (clock w1) = 12 \<and> day (clock w1) = 31)"
    unfolding c1 by simp
  have ns: "next_start configured (clock w1)
      = Inr \<lparr>year = 2024, month = 3, day = 10, hour = 5, minute = 0, second = 0, microsecond = 0\<rparr>"
    unfolding c1 by (simp add: next_start_def replace_hour_def configured_def)
  let ?t2 = "\<lparr>arg_station_name = ''A'', arg_station_url = ''http://a'',
       arg_filename = generate_filename ''A''
         \<lparr>year = 2024, month = 3, day = 10, hour = 5, minute = 0, second = 0, microsecond = 0\<rparr>,
       arg_duration = RECORD_DURATION configured,
       started = \<lparr>year = 2024, month = 3, day = 10, hour = 5, minute = 0, second = 0, microsecond = 0\<rparr>\<rparr>"
  from record_station_body_closed [OF closed v1 H E last S, of "''A''" "''http://a''"] ns
  obtain w2 where b2: "record_station_body configured ''A'' ''http://a'' w1 = Some (Inr w2)"
    and th2: "threads w2 = threads w1 @ [?t2]"
    by auto
  have th: "threads w2 = [?t1, ?t2]"
    by (simp add: th2 th1)
  have s1: "started ?t1 = \<lparr>year = 2024, month = 3, day = 9, hour = 23, minute = 50, second = 0, microsecond = 0\<rparr>"
    by (simp add: closing_world_def example_world_def)
  have ov: "overlap_us ?t1 ?t2 = 0"
    by (simp add: overlap_us_def active_from_def active_until_def timestamp_def toordinal_def
        days_before_year_def days_before_month_def is_leap_def time_of_day_def
        closing_world_def example_world_def configured_def)
  have ne: "overlap_us ?t1 ?t2 \<noteq> (RECORD_DURATION configured - OVERLAP_START configured) * 1000000"
    unfolding ov by (simp add: configured_def)
  from b1 b2 th s1 lt ov ne show ?thesis
    by (intro exI [of _ w1] exI [of _ w2] exI [of _ ?t1] exI [of _ ?t2]) simp
qed

end
